theory Spec2Isabelle
  imports
    Main
    "HOL-Library.Char_ord"
    "HOL-Library.List_Lexorder"
    "HOL-Library.Multiset"
    "HOL-Library.AList"
begin

section \<open>JavaScript values\<close>

text \<open>
  Strings are modelled as \<^typ>\<open>string\<close>; the order on them is the lexicographic order
  on character codes, which is what JavaScript's \<open><\<close> on strings computes. An
  optional field (one that may be \<open>undefined\<close>) is an \<^typ>\<open>'a option\<close>.
  A thrown value is recorded by what the \<open>catch\<close> handler of \<open>build\<close> reads
  from it: the result of \<open>err.toString()\<close> and \<open>err.stack\<close>. A thrown string
  has no stack.
\<close>

record JsError =
  errText :: string
  errStack :: "string option"

definition thrownString :: "string \<Rightarrow> JsError" where
  "thrownString s = \<lparr>errText = s, errStack = None\<rparr>"

text \<open>JavaScript truthiness of an optional string: \<open>undefined\<close> and \<open>''\<close> are falsy.\<close>

definition truthyStr :: "string option \<Rightarrow> bool" where
  "truthyStr v = (case v of None \<Rightarrow> False | Some s \<Rightarrow> s \<noteq> [])"

text \<open>
  \<open>String.prototype.trim\<close>: white space and line terminators are removed at both ends.
  Of the characters JavaScript treats so, the ones a \<^typ>\<open>char\<close> can hold are
  tab, line feed, vertical tab, form feed, carriage return, space and no-break space.
\<close>

definition isJsSpace :: "char \<Rightarrow> bool" where
  "isJsSpace c = ((of_char c :: nat) \<in> {9, 10, 11, 12, 13, 32, 160})"

definition trim :: "string \<Rightarrow> string" where
  "trim s = rev (dropWhile isJsSpace (rev (dropWhile isJsSpace s)))"

section \<open>The build configuration (src/compiler/build.ts)\<close>

record PathApi =
  basename :: "string \<Rightarrow> string"
  join :: "string \<Rightarrow> string \<Rightarrow> string"

record SassConfig =
  file' :: string
  outFile :: string

text \<open>
  \<open>sys.sass.render(config, callback)\<close> calls back with either an error or a result
  whose \<open>stats.includedFiles\<close> is a list of paths.
\<close>

record SassApi =
  render :: "SassConfig \<Rightarrow> string + string list"

record FsApi =
  readFileSync :: "string \<Rightarrow> string"

record StencilSystem =
  fs :: "FsApi option"
  path :: "PathApi option"
  sass :: "SassApi option"
  rollup :: "unit option"
  typescript :: "unit option"

text \<open>
  The logger is an object supplied by the caller. \<open>build\<close> reads \<open>logger.level\<close>,
  calls \<open>error\<close>, \<open>debug\<close> and \<open>createTimeSpan\<close> on it by name, and calls
  \<open>logger[d.type]\<close> for a computed key; \<open>members\<close> lists the further callable
  members the object has.
\<close>

record Logger =
  level :: string
  members :: "string list"

definition callable :: "Logger \<Rightarrow> string \<Rightarrow> bool" where
  "callable lg k = (k \<in> {''error'', ''debug'', ''createTimeSpan''} \<union> set (members lg))"

type_synonym Bundle = "string list"

record BuildConfig =
  srcDir :: "string option"
  destDir :: string
  rootDir :: string
  sys :: "StencilSystem option"
  logger :: Logger
  isDevMode :: bool
  isWatch :: bool
  numWorkers :: "nat option"
  writeCompiledToDisk :: "bool option"
  bundles :: "Bundle list option"
  collections :: "string list option"
  namespace :: "string option"

text \<open>
  \<open>validateBuildConfig\<close>: the seven checks in the order of the source, each throwing a
  string; then the defaults. \<open>x || []\<close> keeps a present array (an array is truthy, also
  when empty). The two \<open>namespace\<close> lines are both kept.
\<close>

definition orElse :: "string option \<Rightarrow> string \<Rightarrow> string" where
  "orElse v d = (if truthyStr v then the v else d)"

definition validateBuildConfig :: "BuildConfig \<Rightarrow> JsError + BuildConfig" where
  "validateBuildConfig buildConfig =
     (if \<not> truthyStr (srcDir buildConfig) then Inl (thrownString ''config.srcDir required'')
      else case sys buildConfig of
        None \<Rightarrow> Inl (thrownString ''config.sys required'')
      | Some s \<Rightarrow>
         (if fs s = None then Inl (thrownString ''config.sys.fs required'')
          else if path s = None then Inl (thrownString ''config.sys.path required'')
          else if sass s = None then Inl (thrownString ''config.sys.sass required'')
          else if rollup s = None then Inl (thrownString ''config.sys.rollup required'')
          else if typescript s = None then Inl (thrownString ''config.sys.typescript required'')
          else
            let c1 = buildConfig\<lparr>bundles :=
                       Some (case bundles buildConfig of None \<Rightarrow> [] | Some b \<Rightarrow> b)\<rparr>;
                c2 = c1\<lparr>collections :=
                       Some (case collections c1 of None \<Rightarrow> [] | Some c \<Rightarrow> c)\<rparr>;
                c3 = c2\<lparr>namespace := Some (trim (orElse (namespace c2) ''App''))\<rparr>;
                c4 = c3\<lparr>namespace := Some (trim (orElse (namespace c3) ''bundles''))\<rparr>
            in Inr c4))"

text \<open>
  The required fields by name, in the order \<open>validateBuildConfig\<close> checks them. The
  capabilities of an absent \<open>sys\<close> are not listed: only \<open>sys\<close> itself is.
\<close>

definition missingFields :: "BuildConfig \<Rightarrow> string list" where
  "missingFields c =
     (if truthyStr (srcDir c) then [] else [''srcDir'']) @
     (case sys c of
        None \<Rightarrow> [''sys'']
      | Some s \<Rightarrow>
          (if fs s = None then [''sys.fs''] else []) @
          (if path s = None then [''sys.path''] else []) @
          (if sass s = None then [''sys.sass''] else []) @
          (if rollup s = None then [''sys.rollup''] else []) @
          (if typescript s = None then [''sys.typescript''] else []))"

definition requiredMessage :: "string \<Rightarrow> string" where
  "requiredMessage f = ''config.'' @ f @ '' required''"

section \<open>Results and diagnostics (compiler/interfaces)\<close>

text \<open>
  The interfaces module is not part of the sources at hand; the records below carry the
  fields that \<open>build.ts\<close> reads and writes. A diagnostic pushed by the \<open>catch\<close>
  handler of \<open>build\<close> has \<open>msg\<close>, \<open>type\<close> and \<open>stack\<close>; one made by
  \<open>transpileFile\<close> has \<open>msg\<close>, \<open>level\<close>, \<open>filePath\<close>, \<open>start\<close>,
  \<open>length\<close>, \<open>category\<close> and \<open>code\<close>. Every other field is \<open>undefined\<close>.
\<close>

record Diagnostic =
  msg :: string
  type :: "string option"
  stack :: "string option"
  level :: "string option"
  filePath :: "string option"
  start :: "nat option"
  length' :: "nat option"
  category :: "nat option"
  code :: "nat option"

type_synonym FilesToWrite = "(string \<times> string) list"

record Manifest =
  components :: "string list"

definition emptyManifest :: Manifest where
  "emptyManifest = \<lparr>components = []\<rparr>"

record CompileResults =
  jsFiles :: "(string \<times> string) list"
  includedSassFiles :: "string list option"
  diagnostics :: "Diagnostic list option"
  filesToWrite :: "FilesToWrite option"
  manifest :: "Manifest option"

record BundleResults =
  diagnostics :: "Diagnostic list option"
  filesToWrite :: "FilesToWrite option"
  componentRegistry :: "string list"

record BuildResults =
  diagnostics :: "Diagnostic list"
  manifest :: Manifest
  componentRegistry :: "string list"

record CompilerOptions =
  outDir :: string
  module' :: string
  target :: string
  rootDir :: "string option"

record CompilerConfig =
  compilerOptions :: CompilerOptions
  include' :: "string option list"
  exclude :: "string list"
  isDevMode :: bool
  bundles :: "Bundle list option"
  isWatch :: bool
  writeCompiledToDisk :: "bool option"

record BundlerConfig =
  namespace :: "string option"
  srcDir :: "string option"
  destDir :: string
  manifest :: Manifest
  isDevMode :: bool
  isWatch :: bool

text \<open>\<open>Object.assign(target, source)\<close> on objects used as path-to-text tables.\<close>

definition objectAssign :: "FilesToWrite \<Rightarrow> FilesToWrite \<Rightarrow> FilesToWrite" where
  "objectAssign tgt src = fold (\<lambda>(k, v). AList.update k v) src tgt"

section \<open>The build orchestrator (src/compiler/build.ts)\<close>

text \<open>
  The modules \<open>build\<close> calls into (manifest, compile, bundle, build-project, fs-util)
  are parameters: each call either rejects (or throws) with an error or yields its
  result. The worker manager and the logger are observed through the calls made on
  them, recorded in order as events. The call of \<open>validateBuildConfig\<close> is recorded
  with the configuration it is handed, as that configuration is at the call.
\<close>

record Collaborators =
  generateDependentManifests ::
    "StencilSystem option \<Rightarrow> Logger \<Rightarrow> string list option \<Rightarrow> string \<Rightarrow> string
       \<Rightarrow> JsError + Manifest list"
  compile :: "StencilSystem option \<Rightarrow> Logger \<Rightarrow> CompilerConfig \<Rightarrow> JsError + CompileResults"
  updateManifestUrls :: "Manifest \<Rightarrow> string \<Rightarrow> string \<Rightarrow> JsError + Manifest option"
  mergeManifests :: "Manifest list \<Rightarrow> JsError + Manifest"
  bundle' :: "StencilSystem option \<Rightarrow> Logger \<Rightarrow> BundlerConfig \<Rightarrow> JsError + BundleResults"
  generateProjectFiles :: "BuildConfig \<Rightarrow> string list \<Rightarrow> FilesToWrite \<Rightarrow> JsError + FilesToWrite"
  writeFiles :: "FilesToWrite \<Rightarrow> string \<Rightarrow> JsError + unit"
  updateDirectories :: "FilesToWrite \<Rightarrow> string \<Rightarrow> JsError + unit"

datatype Event =
    CreateTimeSpan string
  | WorkerConnect "nat option"
  | CallValidateBuildConfig BuildConfig
  | CallGenerateDependentManifests
  | CallCompile
  | CallUpdateManifestUrls
  | CallMergeManifests
  | CallBundle
  | CallGenerateProjectFiles
  | CallWriteFiles FilesToWrite string
  | CallUpdateDirectories FilesToWrite string
  | LogCall string string
  | WorkerDisconnect
  | TimeSpanFinish string

record BuildState =
  config :: BuildConfig
  buildResults :: BuildResults
  files :: FilesToWrite
  events :: "Event list"

definition addEvent :: "Event \<Rightarrow> BuildState \<Rightarrow> BuildState" where
  "addEvent e st = st\<lparr>events := events st @ [e]\<rparr>"

definition concatDiagnostics :: "Diagnostic list option \<Rightarrow> BuildState \<Rightarrow> BuildState" where
  "concatDiagnostics ds st =
     (case ds of
        None \<Rightarrow> st
      | Some d \<Rightarrow> st\<lparr>buildResults := (buildResults st)
                       \<lparr>BuildResults.diagnostics := BuildResults.diagnostics (buildResults st) @ d\<rparr>\<rparr>)"

definition assignFiles :: "FilesToWrite option \<Rightarrow> BuildState \<Rightarrow> BuildState" where
  "assignFiles fw st =
     (case fw of None \<Rightarrow> st | Some f \<Rightarrow> st\<lparr>files := objectAssign (files st) f\<rparr>)"

definition compileProjectConfig :: "BuildConfig \<Rightarrow> CompilerConfig" where
  "compileProjectConfig buildConfig =
     \<lparr>compilerOptions =
        \<lparr>outDir = BuildConfig.destDir buildConfig, module' = ''commonjs'', target = ''es5'',
         rootDir = BuildConfig.srcDir buildConfig\<rparr>,
      include' = [BuildConfig.srcDir buildConfig],
      exclude = [''node_modules'', ''test''],
      isDevMode = BuildConfig.isDevMode buildConfig,
      bundles = BuildConfig.bundles buildConfig,
      isWatch = BuildConfig.isWatch buildConfig,
      writeCompiledToDisk = BuildConfig.writeCompiledToDisk buildConfig\<rparr>"

definition bundleProjectConfig :: "BuildConfig \<Rightarrow> Manifest \<Rightarrow> BundlerConfig" where
  "bundleProjectConfig buildConfig m =
     \<lparr>namespace = BuildConfig.namespace buildConfig,
      srcDir = BuildConfig.srcDir buildConfig,
      destDir = BuildConfig.destDir buildConfig,
      manifest = m,
      isDevMode = BuildConfig.isDevMode buildConfig,
      isWatch = BuildConfig.isWatch buildConfig\<rparr>"

text \<open>The four \<open>then\<close> handlers of the promise chain, in order.\<close>

definition thenValidate :: "Collaborators \<Rightarrow> BuildState \<Rightarrow> (JsError + Manifest list) \<times> BuildState" where
  "thenValidate env st =
     (let st1 = addEvent (CallValidateBuildConfig (config st)) st in
      case validateBuildConfig (config st1) of
        Inl e \<Rightarrow> (Inl e, st1)
      | Inr c \<Rightarrow>
          (generateDependentManifests env (sys c) (logger c) (collections c)
             (BuildConfig.rootDir c) (BuildConfig.destDir c),
           addEvent CallGenerateDependentManifests (st1\<lparr>config := c\<rparr>)))"

definition thenCompile ::
  "Collaborators \<Rightarrow> Manifest list \<Rightarrow> BuildState \<Rightarrow> (JsError + Manifest) \<times> BuildState" where
  "thenCompile env dependentManifests st =
     (let c = config st; st1 = addEvent CallCompile st in
      case compile env (sys c) (logger c) (compileProjectConfig c) of
        Inl e \<Rightarrow> (Inl e, st1)
      | Inr compileResults \<Rightarrow>
          (let st2 = concatDiagnostics (CompileResults.diagnostics compileResults) st1;
               st3 = assignFiles (CompileResults.filesToWrite compileResults) st2;
               resultsManifest =
                 (case CompileResults.manifest compileResults of
                    None \<Rightarrow> emptyManifest | Some m \<Rightarrow> m);
               st4 = addEvent CallUpdateManifestUrls st3
           in case updateManifestUrls env resultsManifest
                     (BuildConfig.destDir c) (BuildConfig.destDir c) of
                Inl e \<Rightarrow> (Inl e, st4)
              | Inr localManifest \<Rightarrow>
                  (mergeManifests env
                     ((case localManifest of None \<Rightarrow> [] | Some m \<Rightarrow> [m]) @ dependentManifests),
                   addEvent CallMergeManifests st4)))"

definition thenBundle ::
  "Collaborators \<Rightarrow> Manifest \<Rightarrow> BuildState \<Rightarrow> (JsError + unit) \<times> BuildState" where
  "thenBundle env m st =
     (let c = config st; st1 = addEvent CallBundle st in
      case bundle' env (sys c) (logger c) (bundleProjectConfig c m) of
        Inl e \<Rightarrow> (Inl e, st1)
      | Inr bundleResults \<Rightarrow>
          (let st2 = concatDiagnostics (BundleResults.diagnostics bundleResults) st1;
               st3 = assignFiles (BundleResults.filesToWrite bundleResults) st2;
               st4 = addEvent CallGenerateProjectFiles st3
           in case generateProjectFiles env c
                     (BundleResults.componentRegistry bundleResults) (files st4) of
                Inl e \<Rightarrow> (Inl e, st4)
              | Inr f \<Rightarrow> (Inr (), st4\<lparr>files := f\<rparr>)))"

definition thenWrite :: "Collaborators \<Rightarrow> BuildState \<Rightarrow> (JsError + unit) \<times> BuildState" where
  "thenWrite env st =
     (let c = config st in
      if BuildConfig.isDevMode c
      then (writeFiles env (files st) (BuildConfig.destDir c),
            addEvent (CallWriteFiles (files st) (BuildConfig.destDir c)) st)
      else (updateDirectories env (files st) (BuildConfig.destDir c),
            addEvent (CallUpdateDirectories (files st) (BuildConfig.destDir c)) st))"

text \<open>The chain up to the \<open>catch\<close>: the first rejection skips every later handler.\<close>

definition runStages :: "Collaborators \<Rightarrow> BuildState \<Rightarrow> JsError option \<times> BuildState" where
  "runStages env st =
     (case thenValidate env st of
        (Inl e, s1) \<Rightarrow> (Some e, s1)
      | (Inr dependentManifests, s1) \<Rightarrow>
          (case thenCompile env dependentManifests s1 of
             (Inl e, s2) \<Rightarrow> (Some e, s2)
           | (Inr m, s2) \<Rightarrow>
               (case thenBundle env m s2 of
                  (Inl e, s3) \<Rightarrow> (Some e, s3)
                | (Inr u, s3) \<Rightarrow>
                    (case thenWrite env s3 of
                       (Inl e, s4) \<Rightarrow> (Some e, s4)
                     | (Inr v, s4) \<Rightarrow> (None, s4)))))"

definition errorDiagnostic :: "JsError \<Rightarrow> Diagnostic" where
  "errorDiagnostic err =
     \<lparr>msg = errText err, type = Some ''error'', stack = errStack err, level = None,
      filePath = None, start = None, length' = None, category = None, code = None\<rparr>"

definition catchHandler :: "JsError option \<Rightarrow> BuildState \<Rightarrow> BuildState" where
  "catchHandler err st =
     (case err of None \<Rightarrow> st | Some e \<Rightarrow> concatDiagnostics (Some [errorDiagnostic e]) st)"

text \<open>
  The last handler. \<open>logger[d.type](d.msg)\<close> looks the member up by the key
  \<open>String(d.type)\<close>, which is \<open>undefined\<close> for an absent type; calling a member that
  is not a function throws a TypeError, which ends the \<open>forEach\<close> and rejects the
  promise the handler belongs to.
\<close>

definition notAFunction :: JsError where
  "notAFunction =
     \<lparr>errText = ''TypeError: logger[d.type] is not a function'',
      errStack = Some ''TypeError: logger[d.type] is not a function''\<rparr>"

definition logDiagnostic :: "Logger \<Rightarrow> Diagnostic \<Rightarrow> JsError + Event" where
  "logDiagnostic lg d =
     (if type d = Some ''error'' \<and> Logger.level lg = ''debug'' \<and> truthyStr (stack d)
      then Inr (LogCall ''error'' (the (stack d)))
      else let key = (case type d of None \<Rightarrow> ''undefined'' | Some t \<Rightarrow> t) in
           if callable lg key then Inr (LogCall key (msg d)) else Inl notAFunction)"

fun logDiagnostics :: "Logger \<Rightarrow> Diagnostic list \<Rightarrow> JsError option \<times> Event list" where
  "logDiagnostics lg [] = (None, [])"
| "logDiagnostics lg (d # ds) =
     (case logDiagnostic lg d of
        Inl e \<Rightarrow> (Some e, [])
      | Inr ev \<Rightarrow> (case logDiagnostics lg ds of (r, evs) \<Rightarrow> (r, ev # evs)))"

definition finalize :: "BuildState \<Rightarrow> (JsError + BuildResults) \<times> BuildState" where
  "finalize st =
     (case logDiagnostics (logger (config st)) (BuildResults.diagnostics (buildResults st)) of
        (r, evs) \<Rightarrow>
          (let st1 = st\<lparr>events := events st @ evs\<rparr> in
           case r of
             Some e \<Rightarrow> (Inl e, st1)
           | None \<Rightarrow>
               (let st2 = (if BuildConfig.isWatch (config st1)
                           then addEvent (TimeSpanFinish ''build ready, watching files...'') st1
                           else addEvent (TimeSpanFinish ''build finished'')
                                  (addEvent WorkerDisconnect st1))
                in (Inr (buildResults st2), st2))))"

definition initialState :: "BuildConfig \<Rightarrow> BuildState" where
  "initialState buildConfig =
     \<lparr>config = buildConfig\<lparr>BuildConfig.writeCompiledToDisk := Some False\<rparr>,
      buildResults = \<lparr>diagnostics = [], manifest = emptyManifest, componentRegistry = []\<rparr>,
      files = [],
      events =
        [CreateTimeSpan (''build, '' @ (if BuildConfig.isDevMode buildConfig then ''dev'' else ''prod'')
                           @ '' mode, started''),
         WorkerConnect (numWorkers buildConfig)]\<rparr>"

text \<open>
  \<open>build\<close>: the outcome of the returned promise (\<open>Inr\<close> resolved, \<open>Inl\<close> rejected)
  and the final state, which holds the configuration as mutated and the calls made.
\<close>

definition build :: "Collaborators \<Rightarrow> BuildConfig \<Rightarrow> (JsError + BuildResults) \<times> BuildState" where
  "build env buildConfig =
     (case runStages env (initialState buildConfig) of
        (err, st) \<Rightarrow> finalize (catchHandler err st))"

definition isStageCall :: "Event \<Rightarrow> bool" where
  "isStageCall e =
     (case e of
        CallGenerateDependentManifests \<Rightarrow> True
      | CallCompile \<Rightarrow> True
      | CallUpdateManifestUrls \<Rightarrow> True
      | CallMergeManifests \<Rightarrow> True
      | CallBundle \<Rightarrow> True
      | CallGenerateProjectFiles \<Rightarrow> True
      | CallWriteFiles f d \<Rightarrow> True
      | CallUpdateDirectories f d \<Rightarrow> True
      | _ \<Rightarrow> False)"

section \<open>Transpiling one file (src/compiler/build.ts, second part)\<close>

record StyleModeMeta =
  styleUrls :: "string list option"

record ComponentMeta =
  styleMeta :: "(string \<times> StyleModeMeta) list option"
  statesMeta :: "string list option"

record ModuleFileMeta =
  filePath :: string
  srcDir :: string
  srcText :: string
  isTsSourceFile :: bool
  cmpMeta :: "ComponentMeta option"
  recompileOnChange :: bool
  jsFilePath :: "string option"
  jsText :: "string option"

type_synonym ModuleFiles = "string \<rightharpoonup> ModuleFileMeta"

text \<open>
  TypeScript is a parameter. \<open>ts.createProgram\<close> followed by \<open>program.emit\<close> is given
  the root file names, the context and the custom transformers; it yields the context as
  the host reads and the transformers left it, the files it hands to the host's
  \<open>writeFile\<close> (each with the names of the source files it stems from) and its
  diagnostics.
\<close>

datatype Transformer = ComponentClass | RemoveImports | UpdateLifecycleMethods | JsxToVNode

record CustomTransformers =
  before :: "Transformer list"
  after :: "Transformer list"

record EmitOutput =
  outFilePath :: string
  outText :: string
  sourceFiles :: "string list"

record TsDiagnostic =
  messageText :: string
  fileName :: "string option"
  start :: "nat option"
  length' :: "nat option"
  category :: "nat option"
  code :: "nat option"

record EmitResult =
  ctxAfter :: ModuleFiles
  outputs :: "EmitOutput list"
  diagnostics :: "TsDiagnostic list"

type_synonym TypeScript = "string list \<Rightarrow> ModuleFiles \<Rightarrow> CustomTransformers \<Rightarrow> EmitResult"

text \<open>
  What \<open>program.emit\<close> does with the custom transformers, for a program of the given
  root files: each file's tree, as the host's \<open>getSourceFile\<close> gives it, goes
  through the \<open>before\<close> transformers in list order, then through TypeScript's own
  transforms, then through the \<open>after\<close> transformers in list order, and is printed
  and handed to \<open>writeFile\<close>. The transformer modules are not among the sources at
  hand: \<open>runTransformer\<close> is what each does to a tree and the context.
\<close>

record 'ast Compiler =
  getSourceFile :: "string \<Rightarrow> 'ast"
  runTransformer :: "Transformer \<Rightarrow> 'ast \<times> ModuleFiles \<Rightarrow> 'ast \<times> ModuleFiles"
  ownTransforms :: "'ast \<Rightarrow> 'ast"
  printFile :: "'ast \<Rightarrow> string"
  outputFileName :: "string \<Rightarrow> string"
  fileDiagnostics :: "'ast \<Rightarrow> TsDiagnostic list"

definition emitFile ::
  "'ast Compiler \<Rightarrow> CustomTransformers \<Rightarrow> string \<Rightarrow> ModuleFiles
     \<Rightarrow> EmitOutput \<times> TsDiagnostic list \<times> ModuleFiles" where
  "emitFile c ct name ctx =
     (let source = getSourceFile c name;
          s1 = fold (runTransformer c) (before ct) (source, ctx);
          s2 = apfst (ownTransforms c) s1;
          s3 = fold (runTransformer c) (after ct) s2
      in (\<lparr>outFilePath = outputFileName c name, outText = printFile c (fst s3),
           sourceFiles = [name]\<rparr>,
          fileDiagnostics c source, snd s3))"

fun emitFiles :: "'ast Compiler \<Rightarrow> CustomTransformers \<Rightarrow> string list \<Rightarrow> ModuleFiles \<Rightarrow> EmitResult" where
  "emitFiles c ct [] ctx = \<lparr>ctxAfter = ctx, outputs = [], diagnostics = []\<rparr>"
| "emitFiles c ct (name # names) ctx =
     (case emitFile c ct name ctx of
        (out, ds, ctx1) \<Rightarrow>
          (let r = emitFiles c ct names ctx1
           in \<lparr>ctxAfter = ctxAfter r, outputs = out # outputs r,
               diagnostics = ds @ EmitResult.diagnostics r\<rparr>))"

definition programEmit :: "'ast Compiler \<Rightarrow> TypeScript" where
  "programEmit c roots ctx ct = emitFiles c ct roots ctx"

definition transpileTransformers :: CustomTransformers where
  "transpileTransformers =
     \<lparr>before = [ComponentClass, RemoveImports, UpdateLifecycleMethods],
      after = [JsxToVNode]\<rparr>"

text \<open>
  The state one \<open>transpileFile\<close> call works on: the context's module files, the
  \<open>compileResults\<close> object, the calls made on the logger (member and message), and
  the configurations \<open>sys.sass.render\<close> was called with, in call order. The render
  callbacks run later; they are a separate step below. The functions of this part take
  \<open>sys.path\<close> and \<open>sys.sass\<close> as the capabilities themselves: they are
  declared on a \<open>StencilSystem\<close> that has them.
\<close>

record TranspileState =
  moduleFiles :: ModuleFiles
  compileResults :: CompileResults
  logged :: "(string \<times> string) list"
  renderCalls :: "SassConfig list"

definition logTo :: "string \<Rightarrow> string \<Rightarrow> TranspileState \<Rightarrow> TranspileState" where
  "logTo member message st = st\<lparr>logged := logged st @ [(member, message)]\<rparr>"

definition included :: "TranspileState \<Rightarrow> string list" where
  "included st =
     (case includedSassFiles (compileResults st) of None \<Rightarrow> [] | Some l \<Rightarrow> l)"

definition setIncluded :: "string list \<Rightarrow> TranspileState \<Rightarrow> TranspileState" where
  "setIncluded l st = st\<lparr>compileResults := (compileResults st)\<lparr>includedSassFiles := Some l\<rparr>\<rparr>"

text \<open>\<open>if (xs.indexOf(x) === -1) xs.push(x)\<close>\<close>

definition pushIfAbsent :: "string \<Rightarrow> string list \<Rightarrow> string list" where
  "pushIfAbsent x xs = (if x \<in> set xs then xs else xs @ [x])"

text \<open>
  \<open>getIncludedSassFiles\<close>, the part that runs at once (the promise executor): the path
  is recorded and \<open>sys.sass.render\<close> is called.
\<close>

definition getIncludedSassFiles :: "string \<Rightarrow> TranspileState \<Rightarrow> TranspileState" where
  "getIncludedSassFiles scssFilePath st =
     (let sassConfig = \<lparr>file' = scssFilePath, outFile = scssFilePath @ ''.tmp''\<rparr>;
          st1 = setIncluded (pushIfAbsent scssFilePath (included st)) st;
          st2 = logTo ''debug'' (''compile, getIncludedSassFiles: '' @ scssFilePath) st1
      in st2\<lparr>renderCalls := renderCalls st2 @ [sassConfig]\<rparr>)"

text \<open>
  The callback handed to \<open>sys.sass.render\<close>, run with what the style compiler reports
  for that call; it always ends in \<open>resolve()\<close>.
\<close>

datatype PromiseOutcome = Resolved | Rejected JsError

definition renderCallback ::
  "SassApi \<Rightarrow> SassConfig \<Rightarrow> TranspileState \<Rightarrow> PromiseOutcome \<times> TranspileState" where
  "renderCallback sassApi sassConfig st =
     (case render sassApi sassConfig of
        Inl err \<Rightarrow> (Resolved, logTo ''error'' (''sass.render, getIncludedSassFiles, '' @ err) st)
      | Inr includedFiles \<Rightarrow>
          (Resolved, setIncluded (fold pushIfAbsent includedFiles (included st)) st))"

fun runCallbacks ::
  "SassApi \<Rightarrow> SassConfig list \<Rightarrow> TranspileState \<Rightarrow> PromiseOutcome list \<times> TranspileState" where
  "runCallbacks sassApi [] st = ([], st)"
| "runCallbacks sassApi (c # cs) st =
     (case renderCallback sassApi c st of
        (p, st1) \<Rightarrow> (case runCallbacks sassApi cs st1 of (ps, st2) \<Rightarrow> (p # ps, st2)))"

text \<open>\<open>Promise.all\<close>: rejected with the first rejection, resolved otherwise.\<close>

fun promiseAll :: "PromiseOutcome list \<Rightarrow> PromiseOutcome" where
  "promiseAll [] = Resolved"
| "promiseAll (Resolved # ps) = promiseAll ps"
| "promiseAll (Rejected e # ps) = Rejected e"

text \<open>The style URLs of a component, mode by mode in \<open>Object.keys\<close> order.\<close>

definition modeStyleUrls :: "(string \<times> StyleModeMeta) list \<Rightarrow> string \<Rightarrow> string list" where
  "modeStyleUrls sm modeName =
     (case map_of sm modeName of
        None \<Rightarrow> []
      | Some modeMeta \<Rightarrow> (case styleUrls modeMeta of None \<Rightarrow> [] | Some urls \<Rightarrow> urls))"

definition allStyleUrls :: "(string \<times> StyleModeMeta) list \<Rightarrow> string list" where
  "allStyleUrls sm = concat (map (modeStyleUrls sm) (map fst sm))"

definition scssPathOf :: "PathApi \<Rightarrow> ModuleFileMeta \<Rightarrow> string \<Rightarrow> string" where
  "scssPathOf pathApi moduleFile styleUrl =
     (let scssFileName = basename pathApi styleUrl
      in join pathApi (ModuleFileMeta.srcDir moduleFile) scssFileName)"

definition hasStyles :: "ModuleFileMeta \<Rightarrow> bool" where
  "hasStyles moduleFile =
     (isTsSourceFile moduleFile \<and>
      (case cmpMeta moduleFile of None \<Rightarrow> False | Some cm \<Rightarrow> styleMeta cm \<noteq> None))"

definition processIncludedStyles ::
  "PathApi \<Rightarrow> CompilerConfig \<Rightarrow> ModuleFileMeta \<Rightarrow> TranspileState \<Rightarrow> TranspileState" where
  "processIncludedStyles pathApi compilerConfig moduleFile st =
     (if \<not> hasStyles moduleFile then st
      else
        let destDir = outDir (compilerOptions compilerConfig);
            st1 = logTo ''debug'' (''compile, processStyles, destDir '' @ destDir) st;
            st2 = setIncluded (included st1) st1;
            sm = the (styleMeta (the (cmpMeta moduleFile)))
        in fold (\<lambda>styleUrl. getIncludedSassFiles (scssPathOf pathApi moduleFile styleUrl))
             (allStyleUrls sm) st2)"

text \<open>The host's \<open>writeFile\<close>, called by the emit once per output file.\<close>

definition writeSource ::
  "PathApi \<Rightarrow> CompilerConfig \<Rightarrow> EmitOutput \<Rightarrow> string \<Rightarrow> TranspileState \<Rightarrow> TranspileState" where
  "writeSource pathApi compilerConfig out s st =
     (case moduleFiles st s of
        None \<Rightarrow> st
      | Some mf \<Rightarrow>
          (let moduleFile = mf\<lparr>recompileOnChange := True,
                               jsFilePath := Some (outFilePath out),
                               jsText := Some (outText out)\<rparr>
           in processIncludedStyles pathApi compilerConfig moduleFile
                (st\<lparr>moduleFiles := (moduleFiles st)(s \<mapsto> moduleFile)\<rparr>)))"

definition writeFile ::
  "PathApi \<Rightarrow> CompilerConfig \<Rightarrow> EmitOutput \<Rightarrow> TranspileState \<Rightarrow> TranspileState" where
  "writeFile pathApi compilerConfig out st =
     (let st1 = fold (writeSource pathApi compilerConfig out) (sourceFiles out) st
      in st1\<lparr>compileResults := (compileResults st1)
               \<lparr>jsFiles := AList.update (outFilePath out) (outText out)
                             (jsFiles (compileResults st1))\<rparr>\<rparr>)"

definition toDiagnostic :: "TsDiagnostic \<Rightarrow> Diagnostic" where
  "toDiagnostic d =
     \<lparr>msg = messageText d, type = None, stack = None, level = Some ''error'',
      filePath = fileName d, start = TsDiagnostic.start d, length' = TsDiagnostic.length' d,
      category = TsDiagnostic.category d, code = TsDiagnostic.code d\<rparr>"

definition transpileFile ::
  "TypeScript \<Rightarrow> PathApi \<Rightarrow> ModuleFiles \<Rightarrow> CompilerConfig \<Rightarrow> ModuleFileMeta \<Rightarrow> TranspileState" where
  "transpileFile ts pathApi ctx compilerConfig moduleFile =
     (let result = ts [ModuleFileMeta.filePath moduleFile] ctx transpileTransformers;
          st0 = \<lparr>moduleFiles = ctxAfter result,
                 compileResults = \<lparr>jsFiles = [], includedSassFiles = None, diagnostics = None,
                                   filesToWrite = None, manifest = None\<rparr>,
                 logged = [], renderCalls = []\<rparr>;
          st1 = fold (writeFile pathApi compilerConfig) (outputs result) st0
      in st1\<lparr>compileResults := (compileResults st1)
               \<lparr>CompileResults.diagnostics :=
                  Some (map toDiagnostic (EmitResult.diagnostics result))\<rparr>\<rparr>)"

section \<open>State decorators (getStateDecoratorMeta)\<close>

text \<open>
  The part of TypeScript's syntax tree the function looks at. A node has a kind, its
  source text and its children as \<open>getChildren\<close> lists them (tokens included). Kinds
  below \<open>FirstNode\<close> are tokens; an identifier is one of them.
\<close>

datatype SyntaxKind =
    AtToken | OpenParenToken | CloseParenToken | DotToken | ColonToken | EqualsToken
  | StaticKeyword | StringKeyword | StringLiteral | NumericLiteral | Identifier
  | ComputedPropertyName | Decorator | PropertyAccessExpression | CallExpression
  | TypeReference | SyntaxList

definition isTokenKind :: "SyntaxKind \<Rightarrow> bool" where
  "isTokenKind k =
     (k \<in> {AtToken, OpenParenToken, CloseParenToken, DotToken, ColonToken, EqualsToken,
            StaticKeyword, StringKeyword, StringLiteral, NumericLiteral, Identifier})"

datatype Node = Node (kind: SyntaxKind) (getText: string) (getChildren: "Node list")

text \<open>
  \<open>getFirstToken\<close>: a token has none; a node with no children has none; otherwise it
  is the first child if that is a token, else the first child's first token.
\<close>

fun getFirstToken :: "Node \<Rightarrow> Node option" where
  "getFirstToken (Node k t []) = None"
| "getFirstToken (Node k t (c # cs)) =
     (if isTokenKind k then None
      else if isTokenKind (kind c) then Some c
      else getFirstToken c)"

text \<open>
  A class member: its \<open>decorators\<close> property and the remaining children that
  \<open>forEachChild\<close> visits after the decorators (modifiers, name, type, initializer).
\<close>

record ClassElement =
  decorators :: "Node list option"
  others :: "Node list"

record ClassDeclaration =
  members :: "ClassElement list"

definition forEachChild :: "ClassElement \<Rightarrow> Node list" where
  "forEachChild m = (case decorators m of None \<Rightarrow> [] | Some ds \<Rightarrow> ds) @ others m"

definition isDecorated :: "ClassElement \<Rightarrow> bool" where
  "isDecorated n = (case decorators n of None \<Rightarrow> False | Some ds \<Rightarrow> ds \<noteq> [])"

text \<open>The test the callback applies to a decorator with more than one child.\<close>

definition marksState :: "Node \<Rightarrow> bool" where
  "marksState n =
     (let child = getChildren n ! 1; firstToken = getFirstToken child in
      case firstToken of
        Some t \<Rightarrow> getText t = ''State''
      | None \<Rightarrow> getText child = ''State'')"

text \<open>The callback of \<open>memberNode.forEachChild\<close>, on the pair \<open>(isState, propName)\<close>.\<close>

definition visitChild :: "Node \<Rightarrow> bool \<times> string option \<Rightarrow> bool \<times> string option" where
  "visitChild n s =
     (case s of (isState, propName) \<Rightarrow>
        if kind n = Decorator \<and> length (getChildren n) > 1
        then (if marksState n then (True, propName) else (isState, propName))
        else if isState
        then (if kind n = Identifier \<and> \<not> truthyStr propName
              then (isState, Some (getText n)) else (isState, propName))
        else (isState, propName))"

definition scanMember :: "ClassElement \<Rightarrow> bool \<times> string option" where
  "scanMember memberNode = fold visitChild (forEachChild memberNode) (False, None)"

definition isStateMember :: "ClassElement \<Rightarrow> bool" where
  "isStateMember memberNode =
     (isDecorated memberNode \<and>
      (case scanMember memberNode of (isState, propName) \<Rightarrow> isState \<and> truthyStr propName))"

text \<open>
  The loop over the members: a recognised member pushes its name and loses its
  decorators; the names come out in member order.
\<close>

fun collectStates :: "ClassElement list \<Rightarrow> string list \<times> ClassElement list" where
  "collectStates [] = ([], [])"
| "collectStates (m # ms) =
     (case collectStates ms of
        (names, ms') \<Rightarrow>
          if isStateMember m
          then (the (snd (scanMember m)) # names, m\<lparr>decorators := None\<rparr> # ms')
          else (names, m # ms'))"

text \<open>
  \<open>toLowerCase\<close> on strings of code units below 256: the letters A to Z and the
  capital letters of Latin-1 (192 to 222 without the multiplication sign 215) move up
  by 32.
\<close>

definition lowerChar :: "char \<Rightarrow> char" where
  "lowerChar c =
     (let n = (of_char c :: nat) in
      if (65 \<le> n \<and> n \<le> 90) \<or> (192 \<le> n \<and> n \<le> 222 \<and> n \<noteq> 215)
      then char_of (n + 32) else c)"

definition toLowerCase :: "string \<Rightarrow> string" where
  "toLowerCase s = map lowerChar s"

text \<open>
  \<open>Array.prototype.sort\<close> with the comparator of the source, which orders two names by
  their lower-cased forms and reports a tie otherwise. The engine is free in how it
  places names that tie; the model places them by insertion sort on the lower-cased
  key.
\<close>

definition sortStates :: "string list \<Rightarrow> string list" where
  "sortStates xs = sort_key toLowerCase xs"

definition cannotSetProperty :: JsError where
  "cannotSetProperty =
     \<lparr>errText = ''TypeError: Cannot set property statesMeta of undefined'',
      errStack = Some ''TypeError: Cannot set property statesMeta of undefined''\<rparr>"

definition getStateDecoratorMeta ::
  "ModuleFileMeta \<Rightarrow> ClassDeclaration \<Rightarrow> JsError + ModuleFileMeta \<times> ClassDeclaration" where
  "getStateDecoratorMeta fileMeta classNode =
     (case cmpMeta fileMeta of
        None \<Rightarrow> Inl cannotSetProperty
      | Some cm \<Rightarrow>
          (case collectStates (members classNode) of
             (names, ms') \<Rightarrow>
               Inr (fileMeta\<lparr>cmpMeta := Some (cm\<lparr>statesMeta := Some (sortStates names)\<rparr>)\<rparr>,
                    classNode\<lparr>members := ms'\<rparr>)))"

section \<open>Sample inputs\<close>

text \<open>
  A path capability that, on paths without \<open>.\<close>, \<open>..\<close> and repeated or trailing
  separators, computes what the POSIX \<open>basename\<close> and \<open>join\<close> of Node compute.
\<close>

definition posixPath :: PathApi where
  "posixPath =
     \<lparr>basename = (\<lambda>p. rev (takeWhile (\<lambda>c. c \<noteq> CHR ''/'') (rev p))),
      join = (\<lambda>a b. a @ ''/'' @ b)\<rparr>"

definition okSass :: SassApi where
  "okSass = \<lparr>render = (\<lambda>c. Inr [file' c])\<rparr>"

definition brokenSass :: SassApi where
  "brokenSass = \<lparr>render = (\<lambda>c. Inl (''Error: File to read not found or unreadable: '' @ file' c))\<rparr>"

definition fullSys :: StencilSystem where
  "fullSys = \<lparr>fs = Some \<lparr>readFileSync = (\<lambda>p. [])\<rparr>, path = Some posixPath,
               sass = Some okSass, rollup = Some (), typescript = Some ()\<rparr>"

definition plainLogger :: Logger where
  "plainLogger = \<lparr>Logger.level = ''info'', members = [''info'', ''warn'']\<rparr>"

definition sampleConfig :: BuildConfig where
  "sampleConfig =
     \<lparr>BuildConfig.srcDir = Some ''src'', destDir = ''dist'', rootDir = ''.'', sys = Some fullSys,
      logger = plainLogger, isDevMode = False, isWatch = False, numWorkers = Some 2,
      writeCompiledToDisk = None, bundles = None, collections = None,
      namespace = Some ''  ''\<rparr>"

definition noSassConfig :: BuildConfig where
  "noSassConfig = sampleConfig\<lparr>sys := Some (fullSys\<lparr>sass := None\<rparr>)\<rparr>"

text \<open>
  Collaborators that all succeed; \<open>compile\<close> hands back one script file and the
  diagnostics it is given.
\<close>

definition sampleEnv :: "Diagnostic list \<Rightarrow> Collaborators" where
  "sampleEnv ds =
     \<lparr>generateDependentManifests = (\<lambda>s l c r d. Inr []),
      compile = (\<lambda>s l c. Inr \<lparr>jsFiles = [], includedSassFiles = None, diagnostics = Some ds,
                               filesToWrite = Some [(''dist/cmp.js'', ''var a;'')],
                               manifest = None\<rparr>),
      updateManifestUrls = (\<lambda>m a b. Inr (Some m)),
      mergeManifests = (\<lambda>ms. Inr emptyManifest),
      bundle' = (\<lambda>s l c. Inr \<lparr>BundleResults.diagnostics = None, filesToWrite = None,
                               componentRegistry = []\<rparr>),
      generateProjectFiles = (\<lambda>c r f. Inr f),
      writeFiles = (\<lambda>f d. Inr ()),
      updateDirectories = (\<lambda>f d. Inr ())\<rparr>"

text \<open>A diagnostic as \<open>transpileFile\<close> builds it from a TypeScript diagnostic.\<close>

definition transpileDiagnostic :: Diagnostic where
  "transpileDiagnostic =
     toDiagnostic \<lparr>messageText = ''Cannot find name x.'', fileName = Some ''src/cmp.ts'',
                   start = Some 10, length' = Some 1, category = Some 1, code = Some 2304\<rparr>"

text \<open>
  A component file \<open>/src/cmp/cmp.ts\<close> with the given style modes, and a TypeScript
  that emits one script for it.
\<close>

definition cmpFile :: "(string \<times> StyleModeMeta) list \<Rightarrow> ModuleFileMeta" where
  "cmpFile sm =
     \<lparr>filePath = ''/src/cmp/cmp.ts'', srcDir = ''/src/cmp'', srcText = ''class Cmp {}'',
      isTsSourceFile = True,
      cmpMeta = Some \<lparr>styleMeta = Some sm, statesMeta = None\<rparr>,
      recompileOnChange = False, jsFilePath = None, jsText = None\<rparr>"

definition oneFileTs :: TypeScript where
  "oneFileTs roots ctx ct =
     \<lparr>ctxAfter = ctx,
      outputs = [\<lparr>outFilePath = ''/dist/cmp/cmp.js'', outText = ''var Cmp;'',
                  sourceFiles = roots\<rparr>],
      diagnostics = []\<rparr>"

definition sampleCompilerConfig :: CompilerConfig where
  "sampleCompilerConfig = compileProjectConfig sampleConfig"


definition subdirStyle :: "(string \<times> StyleModeMeta) list" where
  "subdirStyle = [(''$'', \<lparr>styleUrls = Some [''styles/main.scss'']\<rparr>)]"

definition oneStyle :: "(string \<times> StyleModeMeta) list" where
  "oneStyle = [(''$'', \<lparr>styleUrls = Some [''missing.scss'']\<rparr>)]"

definition transpileSample :: "(string \<times> StyleModeMeta) list \<Rightarrow> TranspileState" where
  "transpileSample sm =
     transpileFile oneFileTs posixPath [''/src/cmp/cmp.ts'' \<mapsto> cmpFile sm]
       sampleCompilerConfig (cmpFile sm)"

text \<open>Syntax trees: the decorators \<open>@State()\<close> and \<open>@State\<close>, and members using them.\<close>

definition ident :: "string \<Rightarrow> Node" where
  "ident s = Node Identifier s []"

definition callDecorator :: "string \<Rightarrow> Node" where
  "callDecorator s =
     Node Decorator (''@'' @ s @ ''()'')
       [Node AtToken ''@'' [],
        Node CallExpression (s @ ''()'')
          [ident s, Node OpenParenToken ''('' [], Node SyntaxList [] [],
           Node CloseParenToken '')'' []]]"

definition bareDecorator :: "string \<Rightarrow> Node" where
  "bareDecorator s = Node Decorator (''@'' @ s) [Node AtToken ''@'' [], ident s]"

definition stateProp :: "string \<Rightarrow> ClassElement" where
  "stateProp s = \<lparr>decorators = Some [callDecorator ''State''], others = [ident s]\<rparr>"

definition staticStateProp :: "string \<Rightarrow> ClassElement" where
  "staticStateProp s =
     \<lparr>decorators = Some [bareDecorator ''State''],
      others = [Node StaticKeyword ''static'' [], ident s]\<rparr>"

definition sampleFileMeta :: ModuleFileMeta where
  "sampleFileMeta = cmpFile []"

definition statesOf :: "JsError + ModuleFileMeta \<times> ClassDeclaration \<Rightarrow> string list option" where
  "statesOf r =
     (case r of
        Inl e \<Rightarrow> None
      | Inr (fm, cn) \<Rightarrow> (case cmpMeta fm of None \<Rightarrow> None | Some cm \<Rightarrow> statesMeta cm))"

definition sampleValidated :: BuildConfig where
  "sampleValidated =
     sampleConfig\<lparr>BuildConfig.bundles := Some [], collections := Some [],
                  BuildConfig.namespace := Some ''bundles''\<rparr>"

text \<open>The style URLs \<open>processIncludedStyles\<close> goes through for a module file.\<close>

definition moduleStyleUrls :: "ModuleFileMeta \<Rightarrow> string list" where
  "moduleStyleUrls moduleFile =
     (if hasStyles moduleFile
      then allStyleUrls (the (styleMeta (the (cmpMeta moduleFile)))) else [])"

definition emptyTranspileState :: TranspileState where
  "emptyTranspileState =
     \<lparr>moduleFiles = Map.empty,
      compileResults = \<lparr>jsFiles = [], includedSassFiles = None, diagnostics = None,
                        filesToWrite = None, manifest = None\<rparr>,
      logged = [], renderCalls = []\<rparr>"

section \<open>The state marker and the name of a marked member\<close>

text \<open>
  A decorator is a state marker when it has an expression (the child after the
  \<open>@\<close>) and either the first token of the expression reads \<open>State\<close>, or the
  expression has no first token and reads \<open>State\<close> as a whole.
\<close>

definition isStateDecorator :: "Node \<Rightarrow> bool" where
  "isStateDecorator n =
     (kind n = Decorator \<and> 1 < length (getChildren n) \<and>
      ((getFirstToken (getChildren n ! 1) \<noteq> None
          \<and> getText (the (getFirstToken (getChildren n ! 1))) = ''State'')
       \<or> (getFirstToken (getChildren n ! 1) = None
          \<and> getText (getChildren n ! 1) = ''State'')))"

text \<open>The children that follow the first state marker, if there is one.\<close>

definition afterStateMarker :: "Node list \<Rightarrow> Node list option" where
  "afterStateMarker ns =
     (case dropWhile (\<lambda>n. \<not> isStateDecorator n) ns of
        [] \<Rightarrow> None
      | d # following \<Rightarrow> Some following)"

text \<open>
  What the callback takes as the name: the first of the given children that is itself
  an identifier with a text. Identifiers inside another child are not looked at.
\<close>

definition nextIdentifierChild :: "Node list \<Rightarrow> Node option" where
  "nextIdentifierChild ns = find (\<lambda>n. kind n = Identifier \<and> getText n \<noteq> []) ns"

text \<open>The scan of a member in closed form.\<close>

definition markedName :: "ClassElement \<Rightarrow> string option" where
  "markedName m =
     (if isDecorated m
      then (case afterStateMarker (forEachChild m) of
              None \<Rightarrow> None
            | Some following \<Rightarrow> map_option getText (nextIdentifierChild following))
      else None)"

text \<open>
  The rule as the specification words it: a member is a state property when one of its
  decorators is a state marker, and its name is the next identifier token after that
  decorator, the tokens taken in source order through the children that follow.
\<close>

fun tokensOf :: "Node \<Rightarrow> Node list" where
  "tokensOf (Node k t cs) =
     (if isTokenKind k then [Node k t cs] else concat (map tokensOf cs))"

definition nextIdentifierToken :: "Node list \<Rightarrow> Node option" where
  "nextIdentifierToken ns = find (\<lambda>t. kind t = Identifier) (concat (map tokensOf ns))"

definition hasStateMarker :: "ClassElement \<Rightarrow> bool" where
  "hasStateMarker m =
     (case decorators m of None \<Rightarrow> False | Some ds \<Rightarrow> list_ex isStateDecorator ds)"

definition specifiedName :: "ClassElement \<Rightarrow> string option" where
  "specifiedName m =
     (if hasStateMarker m
      then (case afterStateMarker (forEachChild m) of
              None \<Rightarrow> None
            | Some following \<Rightarrow> map_option getText (nextIdentifierToken following))
      else None)"

text \<open>
  Members for which the two differ: \<open>@State 'open'\<close>, whose name is a string
  literal, and \<open>@State() @Watch() y\<close>.
\<close>

definition literalStateProp :: "string \<Rightarrow> ClassElement" where
  "literalStateProp s =
     \<lparr>decorators = Some [bareDecorator ''State''],
      others = [Node StringLiteral (CHR 0x27 # s @ [CHR 0x27]) []]\<rparr>"

definition watchedStateProp :: "string \<Rightarrow> ClassElement" where
  "watchedStateProp s =
     \<lparr>decorators = Some [callDecorator ''State'', callDecorator ''Watch''],
      others = [ident s]\<rparr>"

text \<open>The name \<open>getStateDecoratorMeta\<close> pushes for a member, if it pushes one.\<close>

definition recordedName :: "ClassElement \<Rightarrow> string option" where
  "recordedName m = (if isStateMember m then snd (scanMember m) else None)"

text \<open>Running the extraction again on what it returned.\<close>

definition rerun ::
  "JsError + ModuleFileMeta \<times> ClassDeclaration \<Rightarrow> JsError + ModuleFileMeta \<times> ClassDeclaration" where
  "rerun r = (case r of Inl e \<Rightarrow> Inl e | Inr (fm, cn) \<Rightarrow> getStateDecoratorMeta fm cn)"

definition classOf :: "ClassElement list \<Rightarrow> ClassDeclaration" where
  "classOf ms = \<lparr>members = ms\<rparr>"

text \<open>The names the member loop pushes for a class, in member order.\<close>

definition pushedNames :: "ClassDeclaration \<Rightarrow> string list" where
  "pushedNames classNode = fst (collectStates (members classNode))"

section \<open>Style operations on a compile results object\<close>







section \<open>Properties of validateBuildConfig\<close>

lemma dropWhile_unchanged: "xs = [] \<or> \<not> P (hd xs) \<Longrightarrow> dropWhile P xs = xs"
  by (cases xs) auto

lemma trim_hd: "trim s \<noteq> [] \<Longrightarrow> \<not> isJsSpace (hd (trim s))"
proof -
  assume ne: "trim s \<noteq> []"
  define t where "t = dropWhile isJsSpace s"
  define u where "u = dropWhile isJsSpace (rev t)"
  have tr: "trim s = rev u" by (simp add: trim_def t_def u_def)
  with ne have une: "u \<noteq> []" by simp
  have "rev t = takeWhile isJsSpace (rev t) @ u" by (simp add: u_def)
  then have "t = rev u @ rev (takeWhile isJsSpace (rev t))"
    by (metis rev_append rev_rev_ident)
  with une have tne: "t \<noteq> []" and hd: "hd t = hd (rev u)"
    by (metis append_is_Nil_conv rev_is_Nil_conv, metis hd_append2 rev_is_Nil_conv)
  from tne have "\<not> isJsSpace (hd t)" unfolding t_def by (rule hd_dropWhile)
  with hd tr show ?thesis by simp
qed

lemma trim_last: "trim s \<noteq> [] \<Longrightarrow> \<not> isJsSpace (last (trim s))"
proof -
  assume ne: "trim s \<noteq> []"
  define u where "u = dropWhile isJsSpace (rev (dropWhile isJsSpace s))"
  have tr: "trim s = rev u" by (simp add: trim_def u_def)
  with ne have une: "u \<noteq> []" by simp
  then have "\<not> isJsSpace (hd u)" unfolding u_def by (rule hd_dropWhile)
  with tr une show ?thesis by (simp add: last_rev)
qed

lemma trim_idem: "trim (trim s) = trim s"
proof (cases "trim s = []")
  case True
  moreover have "trim [] = []" by (simp add: trim_def)
  ultimately show ?thesis by simp
next
  case False
  have a: "dropWhile isJsSpace (trim s) = trim s"
    using trim_hd[OF False] by (intro dropWhile_unchanged) simp
  have "hd (rev (trim s)) = last (trim s)" using False by (simp add: hd_rev)
  then have b: "dropWhile isJsSpace (rev (trim s)) = rev (trim s)"
    using trim_last[OF False] by (intro dropWhile_unchanged) simp
  show ?thesis
    unfolding trim_def[of "trim s"] a b by simp
qed

lemma trim_App: "trim ''App'' = ''App''"
  by (simp add: trim_def isJsSpace_def)

lemma trim_bundles: "trim ''bundles'' = ''bundles''"
  by (simp add: trim_def isJsSpace_def)

lemma namespace_default:
  "trim (orElse (Some (trim (orElse ns ''App''))) ''bundles'') =
     (if \<not> truthyStr ns then ''App''
      else if trim (the ns) = [] then ''bundles'' else trim (the ns))"
  by (simp add: orElse_def truthyStr_def trim_App trim_bundles trim_idem split: option.splits)

text \<open>
  C10. On success \<open>validateBuildConfig\<close> hands back its argument with three fields
  set: \<open>bundles\<close> and \<open>collections\<close> are the given lists, or empty when absent;
  \<open>namespace\<close> is trimmed and never empty: an absent (or empty) one becomes
  \<open>App\<close>, one made of white space only becomes \<open>bundles\<close> (the second defaulting
  line), any other is its trimmed form. No other field changes.
\<close>

theorem validateBuildConfig_defaults:
  assumes "validateBuildConfig c = Inr c'"
  shows "BuildConfig.bundles c' = Some (case BuildConfig.bundles c of None \<Rightarrow> [] | Some b \<Rightarrow> b)
       \<and> collections c' = Some (case collections c of None \<Rightarrow> [] | Some l \<Rightarrow> l)
       \<and> (\<exists>n. BuildConfig.namespace c' = Some n \<and> n \<noteq> [] \<and> trim n = n)
       \<and> (\<not> truthyStr (BuildConfig.namespace c) \<longrightarrow> BuildConfig.namespace c' = Some ''App'')
       \<and> (\<forall>s. BuildConfig.namespace c = Some s \<and> s \<noteq> [] \<and> trim s = []
              \<longrightarrow> BuildConfig.namespace c' = Some ''bundles'')
       \<and> (\<forall>s. BuildConfig.namespace c = Some s \<and> trim s \<noteq> []
              \<longrightarrow> BuildConfig.namespace c' = Some (trim s))
       \<and> c' = c\<lparr>BuildConfig.bundles := BuildConfig.bundles c', collections := collections c',
                 BuildConfig.namespace := BuildConfig.namespace c'\<rparr>"
proof -
  from assms have c': "c' = c\<lparr>BuildConfig.bundles :=
                       Some (case BuildConfig.bundles c of None \<Rightarrow> [] | Some b \<Rightarrow> b),
                     collections := Some (case collections c of None \<Rightarrow> [] | Some l \<Rightarrow> l),
                     BuildConfig.namespace :=
                       Some (trim (orElse (Some (trim (orElse (BuildConfig.namespace c) ''App''))) ''bundles''))\<rparr>"
    by (auto simp: validateBuildConfig_def Let_def split: if_splits option.splits)
  have ns: "BuildConfig.namespace c' =
      Some (if \<not> truthyStr (BuildConfig.namespace c) then ''App''
            else if trim (the (BuildConfig.namespace c)) = [] then ''bundles''
            else trim (the (BuildConfig.namespace c)))"
    unfolding c' by (simp add: namespace_default)
  have "\<exists>n. BuildConfig.namespace c' = Some n \<and> n \<noteq> [] \<and> trim n = n"
    unfolding ns by (simp add: trim_App trim_bundles trim_idem)
  moreover have "BuildConfig.bundles c' = Some (case BuildConfig.bundles c of None \<Rightarrow> [] | Some b \<Rightarrow> b)"
    and "collections c' = Some (case collections c of None \<Rightarrow> [] | Some l \<Rightarrow> l)"
    unfolding c' by simp_all
  moreover have "\<not> truthyStr (BuildConfig.namespace c) \<longrightarrow> BuildConfig.namespace c' = Some ''App''"
    unfolding ns by simp
  moreover have "\<forall>s. BuildConfig.namespace c = Some s \<and> s \<noteq> [] \<and> trim s = []
              \<longrightarrow> BuildConfig.namespace c' = Some ''bundles''"
    unfolding ns by (simp add: truthyStr_def)
  moreover have "\<forall>s. BuildConfig.namespace c = Some s \<and> trim s \<noteq> []
              \<longrightarrow> BuildConfig.namespace c' = Some (trim s)"
    unfolding ns by (auto simp: truthyStr_def trim_def)
  moreover have "c' = c\<lparr>BuildConfig.bundles := BuildConfig.bundles c', collections := collections c',
                 BuildConfig.namespace := BuildConfig.namespace c'\<rparr>"
    by (subst (1) c') (simp add: c')
  ultimately show ?thesis by blast
qed

theorem validateBuildConfig_defaults_witness:
  "validateBuildConfig sampleConfig = Inr sampleValidated
   \<and> BuildConfig.namespace sampleConfig = Some ''  ''
   \<and> BuildConfig.namespace sampleValidated = Some ''bundles''
   \<and> BuildConfig.bundles sampleValidated = Some []
   \<and> collections sampleValidated = Some []"
proof -
  have h: "validateBuildConfig sampleConfig = Inr sampleValidated"
    by (simp add: validateBuildConfig_def sampleValidated_def sampleConfig_def fullSys_def
        truthyStr_def orElse_def trim_def isJsSpace_def Let_def)
  from validateBuildConfig_defaults[OF h] h show ?thesis
    by (simp add: sampleConfig_def trim_def isJsSpace_def)
qed

section \<open>A build with an invalid configuration\<close>

lemma validate_missing:
  "missingFields c \<noteq> [] \<Longrightarrow>
   validateBuildConfig c = Inl (thrownString (requiredMessage (hd (missingFields c))))"
  by (auto simp: validateBuildConfig_def missingFields_def requiredMessage_def
      split: option.splits)

lemma missingFields_initial: "missingFields (config (initialState c)) = missingFields c"
  by (simp add: initialState_def missingFields_def)

lemma runStages_invalid:
  assumes "missingFields cfg \<noteq> []"
  shows "runStages env (initialState cfg) =
           (Some (thrownString (requiredMessage (hd (missingFields cfg)))),
            addEvent (CallValidateBuildConfig (config (initialState cfg))) (initialState cfg))"
proof -
  have "missingFields (config (addEvent (CallValidateBuildConfig (config (initialState cfg))) (initialState cfg))) \<noteq> []"
    using assms by (simp add: addEvent_def missingFields_initial)
  from validate_missing[OF this] show ?thesis
    by (simp add: runStages_def thenValidate_def Let_def addEvent_def missingFields_initial)
qed

lemma logDiagnostic_thrown:
  "logDiagnostic lg (errorDiagnostic (thrownString m)) = Inr (LogCall ''error'' m)"
  by (simp add: logDiagnostic_def errorDiagnostic_def thrownString_def truthyStr_def callable_def)

lemma build_invalid:
  assumes "missingFields cfg \<noteq> []"
  shows "build env cfg =
    (Inr \<lparr>BuildResults.diagnostics =
            [errorDiagnostic (thrownString (requiredMessage (hd (missingFields cfg))))],
          manifest = emptyManifest, componentRegistry = []\<rparr>,
     \<lparr>config = cfg\<lparr>BuildConfig.writeCompiledToDisk := Some False\<rparr>,
      buildResults = \<lparr>BuildResults.diagnostics =
            [errorDiagnostic (thrownString (requiredMessage (hd (missingFields cfg))))],
          manifest = emptyManifest, componentRegistry = []\<rparr>,
      files = [],
      events = [CreateTimeSpan (''build, '' @ (if BuildConfig.isDevMode cfg then ''dev'' else ''prod'')
                           @ '' mode, started''),
                WorkerConnect (numWorkers cfg), CallValidateBuildConfig (cfg\<lparr>BuildConfig.writeCompiledToDisk := Some False\<rparr>),
                LogCall ''error'' (requiredMessage (hd (missingFields cfg)))] @
               (if BuildConfig.isWatch cfg then [TimeSpanFinish ''build ready, watching files...'']
                else [WorkerDisconnect, TimeSpanFinish ''build finished''])\<rparr>)"
  unfolding build_def runStages_invalid[OF assms]
  by (simp add: finalize_def catchHandler_def concatDiagnostics_def addEvent_def
      initialState_def logDiagnostic_thrown Let_def)

text \<open>
  C1. A configuration with a required field missing (\<open>srcDir\<close>, \<open>sys\<close>,
  \<open>sys.fs\<close>, \<open>sys.path\<close>, \<open>sys.sass\<close>, \<open>sys.rollup\<close>,
  \<open>sys.typescript\<close>) fails in the validate handler; the promise resolves to build
  results whose diagnostics are one error, \<open>config.F required\<close>, for the missing
  field \<open>F\<close> (the first in check order when several are missing); no later stage is
  called, in particular neither \<open>writeFiles\<close> nor \<open>updateDirectories\<close>, and no
  file is collected for writing.
\<close>

theorem build_fails_validation:
  assumes "missingFields cfg \<noteq> []"
  shows "hd (missingFields cfg) \<in> set (missingFields cfg)
     \<and> fst (thenValidate env (initialState cfg)) =
         Inl (thrownString (requiredMessage (hd (missingFields cfg))))
     \<and> fst (build env cfg) =
         Inr \<lparr>BuildResults.diagnostics =
                [errorDiagnostic (thrownString (requiredMessage (hd (missingFields cfg))))],
              manifest = emptyManifest, componentRegistry = []\<rparr>
     \<and> msg (errorDiagnostic (thrownString (requiredMessage (hd (missingFields cfg)))))
         = ''config.'' @ hd (missingFields cfg) @ '' required''
     \<and> type (errorDiagnostic (thrownString (requiredMessage (hd (missingFields cfg)))))
         = Some ''error''
     \<and> (\<forall>e \<in> set (events (snd (build env cfg))). \<not> isStageCall e)
     \<and> files (snd (build env cfg)) = []"
proof -
  have a: "hd (missingFields cfg) \<in> set (missingFields cfg)" using assms by simp
  have "missingFields (config (addEvent (CallValidateBuildConfig (config (initialState cfg))) (initialState cfg))) \<noteq> []"
    using assms by (simp add: addEvent_def missingFields_initial)
  from validate_missing[OF this]
  have b: "fst (thenValidate env (initialState cfg)) =
         Inl (thrownString (requiredMessage (hd (missingFields cfg))))"
    by (simp add: thenValidate_def Let_def addEvent_def missingFields_initial)
  have c: "\<forall>e \<in> set (events (snd (build env cfg))). \<not> isStageCall e"
    unfolding build_invalid[OF assms] by (simp add: isStageCall_def)
  have d: "files (snd (build env cfg)) = []"
    unfolding build_invalid[OF assms] by simp
  have e: "fst (build env cfg) =
         Inr \<lparr>BuildResults.diagnostics =
                [errorDiagnostic (thrownString (requiredMessage (hd (missingFields cfg))))],
              manifest = emptyManifest, componentRegistry = []\<rparr>"
    unfolding build_invalid[OF assms] by simp
  have f: "msg (errorDiagnostic (thrownString (requiredMessage (hd (missingFields cfg)))))
         = ''config.'' @ hd (missingFields cfg) @ '' required''"
    by (simp add: errorDiagnostic_def thrownString_def requiredMessage_def)
  have g: "type (errorDiagnostic (thrownString (requiredMessage (hd (missingFields cfg)))))
         = Some ''error''"
    by (simp add: errorDiagnostic_def)
  from a b c d e f g show ?thesis by blast
qed

lemma noSass_missing: "missingFields noSassConfig = [''sys.sass'']"
  by (simp add: missingFields_def noSassConfig_def sampleConfig_def fullSys_def truthyStr_def)

theorem build_fails_validation_witness:
  "missingFields noSassConfig = [''sys.sass'']
   \<and> fst (build (sampleEnv []) noSassConfig) =
       Inr \<lparr>BuildResults.diagnostics =
              [\<lparr>msg = ''config.sys.sass required'', type = Some ''error'', stack = None,
                level = None, filePath = None, start = None, length' = None,
                category = None, code = None\<rparr>],
            manifest = emptyManifest, componentRegistry = []\<rparr>
   \<and> filter isStageCall (events (snd (build (sampleEnv []) noSassConfig))) = []
   \<and> files (snd (build (sampleEnv []) noSassConfig)) = []"
proof -
  have h: "missingFields noSassConfig \<noteq> []" by (simp add: noSass_missing)
  from build_fails_validation[OF h, of "sampleEnv []"] show ?thesis
    by (auto simp: noSass_missing errorDiagnostic_def thrownString_def requiredMessage_def
        filter_empty_conv)
qed

section \<open>The order of the calls of a build\<close>

lemma validate_keeps_flag:
  "validateBuildConfig c = Inr c' \<Longrightarrow>
   BuildConfig.writeCompiledToDisk c' = BuildConfig.writeCompiledToDisk c"
  by (auto simp: validateBuildConfig_def Let_def split: if_splits option.splits)

lemma thenValidate_frame:
  "\<exists>es. events (snd (thenValidate env st)) = events st @ CallValidateBuildConfig (config st) # es
        \<and> BuildConfig.writeCompiledToDisk (config (snd (thenValidate env st))) =
            BuildConfig.writeCompiledToDisk (config st)"
  by (auto simp: thenValidate_def addEvent_def Let_def validate_keeps_flag split: sum.splits)

lemma thenCompile_frame:
  "\<exists>es. events (snd (thenCompile env d st)) = events st @ es
        \<and> config (snd (thenCompile env d st)) = config st"
  by (auto simp: thenCompile_def addEvent_def concatDiagnostics_def assignFiles_def Let_def
      split: sum.splits option.splits)

lemma thenBundle_frame:
  "\<exists>es. events (snd (thenBundle env m st)) = events st @ es
        \<and> config (snd (thenBundle env m st)) = config st"
  by (auto simp: thenBundle_def addEvent_def concatDiagnostics_def assignFiles_def Let_def
      split: sum.splits option.splits)

lemma thenWrite_frame:
  "\<exists>es. events (snd (thenWrite env st)) = events st @ es
        \<and> config (snd (thenWrite env st)) = config st"
  by (auto simp: thenWrite_def addEvent_def Let_def)

lemma runStages_frame:
  "\<exists>es. events (snd (runStages env st)) = events st @ CallValidateBuildConfig (config st) # es
        \<and> BuildConfig.writeCompiledToDisk (config (snd (runStages env st))) =
            BuildConfig.writeCompiledToDisk (config st)"
proof -
  obtain r1 s1 where v: "thenValidate env st = (r1, s1)" by (cases "thenValidate env st")
  from thenValidate_frame[of env st] v obtain e1 where
    s1: "events s1 = events st @ CallValidateBuildConfig (config st) # e1"
        "BuildConfig.writeCompiledToDisk (config s1) = BuildConfig.writeCompiledToDisk (config st)"
    by auto
  show ?thesis
  proof (cases r1)
    case (Inl e)
    with v s1 show ?thesis by (simp add: runStages_def)
  next
    case (Inr d)
    obtain r2 s2 where c: "thenCompile env d s1 = (r2, s2)" by (cases "thenCompile env d s1")
    from thenCompile_frame[of env d s1] c obtain e2 where
      s2: "events s2 = events s1 @ e2" "config s2 = config s1" by auto
    show ?thesis
    proof (cases r2)
      case (Inl e)
      with v c Inr s1 s2 show ?thesis by (simp add: runStages_def)
    next
      case m: (Inr m)
      obtain r3 s3 where b: "thenBundle env m s2 = (r3, s3)" by (cases "thenBundle env m s2")
      from thenBundle_frame[of env m s2] b obtain e3 where
        s3: "events s3 = events s2 @ e3" "config s3 = config s2" by auto
      show ?thesis
      proof (cases r3)
        case (Inl e)
        with v c b Inr m s1 s2 s3 show ?thesis by (simp add: runStages_def)
      next
        case u: (Inr u)
        obtain r4 s4 where w: "thenWrite env s3 = (r4, s4)" by (cases "thenWrite env s3")
        from thenWrite_frame[of env s3] w obtain e4 where
          s4: "events s4 = events s3 @ e4" "config s4 = config s3" by auto
        from v c b w Inr m u s1 s2 s3 s4 show ?thesis
          by (cases r4) (simp_all add: runStages_def)
      qed
    qed
  qed
qed

lemma catchHandler_frame:
  "events (catchHandler err st) = events st \<and> config (catchHandler err st) = config st"
  by (simp add: catchHandler_def concatDiagnostics_def split: option.splits)

lemma finalize_frame:
  "\<exists>es. events (snd (finalize st)) = events st @ es \<and> config (snd (finalize st)) = config st"
  by (auto simp: finalize_def addEvent_def Let_def split: prod.splits option.splits)

lemma build_frame:
  "\<exists>es. events (snd (build env cfg)) = events (initialState cfg) @ CallValidateBuildConfig (config (initialState cfg)) # es
        \<and> BuildConfig.writeCompiledToDisk (config (snd (build env cfg))) = Some False"
proof -
  obtain err st where r: "runStages env (initialState cfg) = (err, st)"
    by (cases "runStages env (initialState cfg)")
  from runStages_frame[of env "initialState cfg"] r obtain e1 where
    st: "events st = events (initialState cfg) @ CallValidateBuildConfig (config (initialState cfg)) # e1"
        "BuildConfig.writeCompiledToDisk (config st) = Some False"
    by (auto simp: initialState_def)
  from finalize_frame[of "catchHandler err st"] obtain e2 where
    "events (snd (finalize (catchHandler err st))) = events (catchHandler err st) @ e2"
    "config (snd (finalize (catchHandler err st))) = config (catchHandler err st)" by auto
  with st r show ?thesis by (simp add: build_def catchHandler_frame)
qed


text \<open>
  C9. Whatever the configuration and the collaborators, the first calls of a build are
  \<open>createTimeSpan\<close>, \<open>workerManager.connect(numWorkers)\<close> and only then
  \<open>validateBuildConfig\<close>, which is handed the configuration with
  \<open>writeCompiledToDisk\<close> already set to \<open>false\<close> (and nothing else changed); the
  field is still \<open>false\<close> at the end. So a build whose configuration fails
  validation has connected the pool and has had that field set before; its last
  handler logs the error and disconnects the pool exactly when watch mode is off.
\<close>

theorem build_connects_before_validation:
  "take 3 (events (snd (build env cfg))) =
     [CreateTimeSpan (''build, '' @ (if BuildConfig.isDevMode cfg then ''dev'' else ''prod'')
                        @ '' mode, started''),
      WorkerConnect (numWorkers cfg), CallValidateBuildConfig (cfg\<lparr>BuildConfig.writeCompiledToDisk := Some False\<rparr>)]
   \<and> BuildConfig.writeCompiledToDisk (config (snd (build env cfg))) = Some False
   \<and> (missingFields cfg \<noteq> [] \<longrightarrow>
        config (snd (build env cfg)) = cfg\<lparr>BuildConfig.writeCompiledToDisk := Some False\<rparr>
        \<and> events (snd (build env cfg)) =
            [CreateTimeSpan (''build, '' @ (if BuildConfig.isDevMode cfg then ''dev'' else ''prod'')
                               @ '' mode, started''),
             WorkerConnect (numWorkers cfg), CallValidateBuildConfig (cfg\<lparr>BuildConfig.writeCompiledToDisk := Some False\<rparr>),
             LogCall ''error'' (requiredMessage (hd (missingFields cfg)))] @
            (if BuildConfig.isWatch cfg then [TimeSpanFinish ''build ready, watching files...'']
             else [WorkerDisconnect, TimeSpanFinish ''build finished''])
        \<and> (WorkerDisconnect \<in> set (events (snd (build env cfg))) \<longleftrightarrow> \<not> BuildConfig.isWatch cfg))"
proof -
  from build_frame[of env cfg] obtain es where
    ev: "events (snd (build env cfg)) = events (initialState cfg) @ CallValidateBuildConfig (config (initialState cfg)) # es"
    and fl: "BuildConfig.writeCompiledToDisk (config (snd (build env cfg))) = Some False"
    by auto
  have a: "take 3 (events (snd (build env cfg))) =
     [CreateTimeSpan (''build, '' @ (if BuildConfig.isDevMode cfg then ''dev'' else ''prod'')
                        @ '' mode, started''),
      WorkerConnect (numWorkers cfg), CallValidateBuildConfig (cfg\<lparr>BuildConfig.writeCompiledToDisk := Some False\<rparr>)]"
    unfolding ev by (simp add: initialState_def)
  have b: "missingFields cfg \<noteq> [] \<longrightarrow>
        config (snd (build env cfg)) = cfg\<lparr>BuildConfig.writeCompiledToDisk := Some False\<rparr>
        \<and> events (snd (build env cfg)) =
            [CreateTimeSpan (''build, '' @ (if BuildConfig.isDevMode cfg then ''dev'' else ''prod'')
                               @ '' mode, started''),
             WorkerConnect (numWorkers cfg), CallValidateBuildConfig (cfg\<lparr>BuildConfig.writeCompiledToDisk := Some False\<rparr>),
             LogCall ''error'' (requiredMessage (hd (missingFields cfg)))] @
            (if BuildConfig.isWatch cfg then [TimeSpanFinish ''build ready, watching files...'']
             else [WorkerDisconnect, TimeSpanFinish ''build finished''])
        \<and> (WorkerDisconnect \<in> set (events (snd (build env cfg))) \<longleftrightarrow> \<not> BuildConfig.isWatch cfg)"
  proof
    assume m: "missingFields cfg \<noteq> []"
    show "config (snd (build env cfg)) = cfg\<lparr>BuildConfig.writeCompiledToDisk := Some False\<rparr>
        \<and> events (snd (build env cfg)) =
            [CreateTimeSpan (''build, '' @ (if BuildConfig.isDevMode cfg then ''dev'' else ''prod'')
                               @ '' mode, started''),
             WorkerConnect (numWorkers cfg), CallValidateBuildConfig (cfg\<lparr>BuildConfig.writeCompiledToDisk := Some False\<rparr>),
             LogCall ''error'' (requiredMessage (hd (missingFields cfg)))] @
            (if BuildConfig.isWatch cfg then [TimeSpanFinish ''build ready, watching files...'']
             else [WorkerDisconnect, TimeSpanFinish ''build finished''])
        \<and> (WorkerDisconnect \<in> set (events (snd (build env cfg))) \<longleftrightarrow> \<not> BuildConfig.isWatch cfg)"
      unfolding build_invalid[OF m] by simp
  qed
  from a fl b show ?thesis by blast
qed

theorem build_connects_before_validation_witness:
  "missingFields noSassConfig \<noteq> []
   \<and> BuildConfig.writeCompiledToDisk (config (snd (build (sampleEnv []) noSassConfig))) = Some False
   \<and> events (snd (build (sampleEnv []) noSassConfig)) =
       [CreateTimeSpan ''build, prod mode, started'', WorkerConnect (Some 2),
        CallValidateBuildConfig (noSassConfig\<lparr>BuildConfig.writeCompiledToDisk := Some False\<rparr>), LogCall ''error'' ''config.sys.sass required'',
        WorkerDisconnect, TimeSpanFinish ''build finished'']"
proof -
  have h: "missingFields noSassConfig = [''sys.sass'']"
    by (simp add: missingFields_def noSassConfig_def sampleConfig_def fullSys_def truthyStr_def)
  from build_connects_before_validation[of "sampleEnv []" noSassConfig] h show ?thesis
    by (simp add: requiredMessage_def noSassConfig_def sampleConfig_def)
qed

section \<open>Logging the diagnostics\<close>

lemma sample_valid:
  "validateBuildConfig (sampleConfig\<lparr>BuildConfig.writeCompiledToDisk := Some False\<rparr>) =
     Inr (sampleValidated\<lparr>BuildConfig.writeCompiledToDisk := Some False\<rparr>)"
  by (simp add: validateBuildConfig_def sampleValidated_def sampleConfig_def fullSys_def
        truthyStr_def orElse_def trim_def isJsSpace_def Let_def)

lemma sample_stages:
  "runStages (sampleEnv ds) (initialState sampleConfig) =
     (None,
      \<lparr>config = sampleValidated\<lparr>BuildConfig.writeCompiledToDisk := Some False\<rparr>,
       buildResults = \<lparr>BuildResults.diagnostics = ds, manifest = emptyManifest,
                        componentRegistry = []\<rparr>,
       files = [(''dist/cmp.js'', ''var a;'')],
       events = [CreateTimeSpan ''build, prod mode, started'', WorkerConnect (Some 2),
                 CallValidateBuildConfig (sampleConfig\<lparr>BuildConfig.writeCompiledToDisk := Some False\<rparr>), CallGenerateDependentManifests, CallCompile,
                 CallUpdateManifestUrls, CallMergeManifests, CallBundle,
                 CallGenerateProjectFiles,
                 CallUpdateDirectories [(''dist/cmp.js'', ''var a;'')] ''dist'']\<rparr>)"
  apply (simp add: runStages_def thenValidate_def initialState_def addEvent_def Let_def
      sample_valid)
  apply (simp add: thenCompile_def thenBundle_def thenWrite_def addEvent_def sampleEnv_def
      concatDiagnostics_def assignFiles_def objectAssign_def Let_def sampleValidated_def
      sampleConfig_def)
  done

text \<open>
  C3, evaluated where it fails. The compile stage reports one diagnostic of the shape
  \<open>transpileFile\<close> builds (\<open>level\<close> set, no \<open>type\<close>). Watch mode is off and
  every stage succeeds, yet the last handler throws on \<open>logger[d.type]\<close>: the
  promise is rejected instead of resolving to the build results, and the worker manager
  is never disconnected. With no such diagnostic the same build resolves and
  disconnects.
\<close>

theorem build_rejects_on_transpile_diagnostic:
  "type transpileDiagnostic = None
   \<and> level transpileDiagnostic = Some ''error''
   \<and> missingFields sampleConfig = []
   \<and> \<not> BuildConfig.isWatch sampleConfig
   \<and> fst (build (sampleEnv [transpileDiagnostic]) sampleConfig) = Inl notAFunction
   \<and> WorkerDisconnect \<notin> set (events (snd (build (sampleEnv [transpileDiagnostic]) sampleConfig)))
   \<and> fst (build (sampleEnv []) sampleConfig) =
       Inr \<lparr>BuildResults.diagnostics = [], manifest = emptyManifest, componentRegistry = []\<rparr>
   \<and> WorkerDisconnect \<in> set (events (snd (build (sampleEnv []) sampleConfig)))"
proof -
  have a: "type transpileDiagnostic = None \<and> level transpileDiagnostic = Some ''error''"
    by (simp add: transpileDiagnostic_def toDiagnostic_def)
  have b: "missingFields sampleConfig = [] \<and> \<not> BuildConfig.isWatch sampleConfig"
    by (simp add: missingFields_def sampleConfig_def fullSys_def truthyStr_def)
  have l: "logDiagnostic plainLogger transpileDiagnostic = Inl notAFunction"
    by (simp add: logDiagnostic_def transpileDiagnostic_def toDiagnostic_def callable_def
        plainLogger_def)
  have c: "build (sampleEnv [transpileDiagnostic]) sampleConfig =
            (Inl notAFunction, snd (runStages (sampleEnv [transpileDiagnostic]) (initialState sampleConfig)))"
    unfolding build_def sample_stages
    by (simp add: catchHandler_def finalize_def l sampleValidated_def sampleConfig_def)
  have d: "build (sampleEnv []) sampleConfig =
            (Inr \<lparr>BuildResults.diagnostics = [], manifest = emptyManifest, componentRegistry = []\<rparr>,
             (snd (runStages (sampleEnv []) (initialState sampleConfig)))
               \<lparr>events := events (snd (runStages (sampleEnv []) (initialState sampleConfig)))
                   @ [WorkerDisconnect, TimeSpanFinish ''build finished'']\<rparr>)"
    unfolding build_def sample_stages
    by (simp add: catchHandler_def finalize_def addEvent_def sampleValidated_def sampleConfig_def)
  have e: "WorkerDisconnect \<notin> set (events (snd (build (sampleEnv [transpileDiagnostic]) sampleConfig)))"
    unfolding c sample_stages by simp
  have f: "WorkerDisconnect \<in> set (events (snd (build (sampleEnv []) sampleConfig)))"
    unfolding d by simp
  from a b c d e f show ?thesis by simp
qed

section \<open>Styles of a transpiled file\<close>

lemma distinct_pushIfAbsent: "distinct xs \<Longrightarrow> distinct (pushIfAbsent x xs)"
  by (simp add: pushIfAbsent_def)

lemma distinct_fold_pushIfAbsent: "distinct xs \<Longrightarrow> distinct (fold pushIfAbsent ys xs)"
  by (induction ys arbitrary: xs) (simp_all add: distinct_pushIfAbsent)

lemma included_setIncluded: "included (setIncluded l st) = l"
  by (simp add: included_def setIncluded_def)

lemma included_logTo: "included (logTo m t st) = included st"
  by (simp add: included_def logTo_def)

lemma getIncluded_effect:
  "included (getIncludedSassFiles p st) = pushIfAbsent p (included st)
   \<and> renderCalls (getIncludedSassFiles p st) =
       renderCalls st @ [\<lparr>file' = p, outFile = p @ ''.tmp''\<rparr>]
   \<and> jsFiles (compileResults (getIncludedSassFiles p st)) = jsFiles (compileResults st)
   \<and> CompileResults.diagnostics (compileResults (getIncludedSassFiles p st)) =
       CompileResults.diagnostics (compileResults st)"
  by (simp add: getIncludedSassFiles_def Let_def included_def setIncluded_def logTo_def)

lemma fold_getIncluded_effect:
  "distinct (included st) \<longrightarrow>
     distinct (included (fold (\<lambda>u. getIncludedSassFiles (f u)) urls st))"
  "map file' (renderCalls (fold (\<lambda>u. getIncludedSassFiles (f u)) urls st)) =
     map file' (renderCalls st) @ map f urls"
  "jsFiles (compileResults (fold (\<lambda>u. getIncludedSassFiles (f u)) urls st)) =
     jsFiles (compileResults st)"
  "CompileResults.diagnostics (compileResults (fold (\<lambda>u. getIncludedSassFiles (f u)) urls st)) =
     CompileResults.diagnostics (compileResults st)"
  by (induction urls arbitrary: st) (simp_all add: getIncluded_effect distinct_pushIfAbsent)

lemma process_renderCalls:
  "map file' (renderCalls (processIncludedStyles pathApi cc mf st)) =
     map file' (renderCalls st) @ map (scssPathOf pathApi mf) (moduleStyleUrls mf)"
  by (simp add: processIncludedStyles_def moduleStyleUrls_def Let_def fold_getIncluded_effect
      setIncluded_def logTo_def)

lemma process_keeps:
  "jsFiles (compileResults (processIncludedStyles pathApi cc mf st)) = jsFiles (compileResults st)"
  "CompileResults.diagnostics (compileResults (processIncludedStyles pathApi cc mf st)) =
     CompileResults.diagnostics (compileResults st)"
  by (simp_all add: processIncludedStyles_def Let_def fold_getIncluded_effect
      setIncluded_def logTo_def)

lemma fold_getIncluded_distinct:
  "distinct (included st) \<Longrightarrow>
     distinct (included (fold (\<lambda>u. getIncludedSassFiles (f u)) urls st))"
  by (simp add: fold_getIncluded_effect(1))

lemma process_distinct:
  "distinct (included st) \<Longrightarrow> distinct (included (processIncludedStyles pathApi cc mf st))"
proof (cases "hasStyles mf")
  case False
  assume "distinct (included st)"
  with False show ?thesis by (simp add: processIncludedStyles_def)
next
  case True
  assume "distinct (included st)"
  then have "distinct (included (setIncluded (included (logTo a b st)) (logTo a b st)))" for a b
    by (simp add: included_setIncluded included_logTo)
  from fold_getIncluded_distinct[OF this] True show ?thesis
    by (simp add: processIncludedStyles_def Let_def)
qed

lemma writeSource_keeps:
  "jsFiles (compileResults (writeSource pathApi cc out s st)) = jsFiles (compileResults st)"
  "distinct (included st) \<Longrightarrow> distinct (included (writeSource pathApi cc out s st))"
proof -
  show "jsFiles (compileResults (writeSource pathApi cc out s st)) = jsFiles (compileResults st)"
    by (simp add: writeSource_def Let_def process_keeps split: option.splits)
  assume d: "distinct (included st)"
  have "distinct (included (st\<lparr>moduleFiles := m\<rparr>))" for m using d by (simp add: included_def)
  then show "distinct (included (writeSource pathApi cc out s st))"
    using d by (simp add: writeSource_def Let_def process_distinct split: option.splits)
qed

lemma fold_writeSource_keeps:
  "jsFiles (compileResults (fold (writeSource pathApi cc out) ss st)) = jsFiles (compileResults st)"
  "distinct (included st) \<longrightarrow> distinct (included (fold (writeSource pathApi cc out) ss st))"
  by (induction ss arbitrary: st) (simp_all add: writeSource_keeps)

lemma writeFile_effect:
  "jsFiles (compileResults (writeFile pathApi cc out st)) =
     AList.update (outFilePath out) (outText out) (jsFiles (compileResults st))"
  "distinct (included st) \<Longrightarrow> distinct (included (writeFile pathApi cc out st))"
proof -
  show "jsFiles (compileResults (writeFile pathApi cc out st)) =
     AList.update (outFilePath out) (outText out) (jsFiles (compileResults st))"
    by (simp add: writeFile_def Let_def fold_writeSource_keeps)
  assume "distinct (included st)"
  then have "distinct (included (fold (writeSource pathApi cc out) (sourceFiles out) st))"
    by (simp add: fold_writeSource_keeps)
  then show "distinct (included (writeFile pathApi cc out st))"
    by (simp add: writeFile_def Let_def included_def)
qed

lemma fold_writeFile_effect:
  "map_of (jsFiles (compileResults (fold (writeFile pathApi cc) outs st))) =
     fold (\<lambda>out m. m(outFilePath out \<mapsto> outText out)) outs (map_of (jsFiles (compileResults st)))"
  "distinct (included st) \<longrightarrow> distinct (included (fold (writeFile pathApi cc) outs st))"
  by (induction outs arbitrary: st) (simp_all add: writeFile_effect update_conv')


lemma renderCallback_effect:
  "fst (renderCallback sassApi c st) = Resolved"
  "distinct (included st) \<Longrightarrow> distinct (included (snd (renderCallback sassApi c st)))"
  "compileResults (snd (renderCallback sassApi c st)) =
     (compileResults st)\<lparr>includedSassFiles :=
        includedSassFiles (compileResults (snd (renderCallback sassApi c st)))\<rparr>"
  "set (logged st) \<subseteq> set (logged (snd (renderCallback sassApi c st)))"
  "render sassApi c = Inl err \<Longrightarrow>
     (''error'', ''sass.render, getIncludedSassFiles, '' @ err)
       \<in> set (logged (snd (renderCallback sassApi c st)))"
  by (auto simp: renderCallback_def included_def setIncluded_def logTo_def
      distinct_fold_pushIfAbsent split: sum.splits)

lemma runCallbacks_Cons:
  "renderCallback sassApi c st = (p, st1) \<Longrightarrow> runCallbacks sassApi cs st1 = (ps, st2) \<Longrightarrow>
   runCallbacks sassApi (c # cs) st = (p # ps, st2)"
  by simp

lemma renderCallback_keeps:
  "jsFiles (compileResults (snd (renderCallback sassApi c st))) = jsFiles (compileResults st)"
  "CompileResults.diagnostics (compileResults (snd (renderCallback sassApi c st))) =
     CompileResults.diagnostics (compileResults st)"
  by (auto simp: renderCallback_def setIncluded_def logTo_def split: sum.splits)

lemma runCallbacks_all:
  "promiseAll (fst (runCallbacks sassApi order st)) = Resolved
   \<and> (distinct (included st) \<longrightarrow> distinct (included (snd (runCallbacks sassApi order st))))
   \<and> jsFiles (compileResults (snd (runCallbacks sassApi order st))) = jsFiles (compileResults st)
   \<and> CompileResults.diagnostics (compileResults (snd (runCallbacks sassApi order st))) =
       CompileResults.diagnostics (compileResults st)
   \<and> set (logged st) \<subseteq> set (logged (snd (runCallbacks sassApi order st)))"
proof (induction order arbitrary: st)
  case Nil
  show ?case by simp
next
  case (Cons c cs)
  obtain p st1 where r: "renderCallback sassApi c st = (p, st1)"
    by (cases "renderCallback sassApi c st")
  obtain ps st2 where rs: "runCallbacks sassApi cs st1 = (ps, st2)"
    by (cases "runCallbacks sassApi cs st1")
  note full = runCallbacks_Cons[OF r rs]
  from renderCallback_effect(1)[of sassApi c st] r have p: "p = Resolved" by simp
  from r have st1: "st1 = snd (renderCallback sassApi c st)" by simp
  from Cons.IH[of st1] rs p renderCallback_effect(2)[of st sassApi c]
    renderCallback_effect(4)[of st sassApi c]
  show ?case
    unfolding full by (auto simp: st1 renderCallback_keeps)
qed

lemmas runCallbacks_effect =
  runCallbacks_all[THEN conjunct1]
  runCallbacks_all[THEN conjunct2, THEN conjunct1]
  runCallbacks_all[THEN conjunct2, THEN conjunct2, THEN conjunct1]
  runCallbacks_all[THEN conjunct2, THEN conjunct2, THEN conjunct2, THEN conjunct1]
  runCallbacks_all[THEN conjunct2, THEN conjunct2, THEN conjunct2, THEN conjunct2]

lemma runCallbacks_logs_error:
  "c \<in> set order \<Longrightarrow> render sassApi c = Inl err \<Longrightarrow>
     (''error'', ''sass.render, getIncludedSassFiles, '' @ err)
       \<in> set (logged (snd (runCallbacks sassApi order st)))"
proof (induction order arbitrary: st)
  case Nil
  then show ?case by simp
next
  case (Cons a cs)
  obtain p st1 where r: "renderCallback sassApi a st = (p, st1)"
    by (cases "renderCallback sassApi a st")
  obtain ps st2 where rs: "runCallbacks sassApi cs st1 = (ps, st2)"
    by (cases "runCallbacks sassApi cs st1")
  note full = runCallbacks_Cons[OF r rs]
  from r have st1: "st1 = snd (renderCallback sassApi a st)" by simp
  show ?case
  proof (cases "c = a")
    case True
    with Cons.prems renderCallback_effect(5)[of sassApi a err st] st1
    have "(''error'', ''sass.render, getIncludedSassFiles, '' @ err) \<in> set (logged st1)" by simp
    with runCallbacks_effect(5)[of st1 sassApi cs] rs show ?thesis unfolding full by auto
  next
    case False
    with Cons.prems have "c \<in> set cs" by simp
    from Cons.IH[OF this Cons.prems(2), of st1] rs show ?thesis unfolding full by simp
  qed
qed


lemma fold_upd_dom:
  "dom (fold (\<lambda>out m. m(outFilePath out \<mapsto> outText out)) outs m) =
     dom m \<union> outFilePath ` set outs"
  by (induction outs arbitrary: m) auto

lemma fold_upd_last:
  "outs \<noteq> [] \<Longrightarrow>
   fold (\<lambda>out m. m(outFilePath out \<mapsto> outText out)) outs m (outFilePath (last outs)) =
     Some (outText (last outs))"
  by (induction outs rule: rev_induct) simp_all

lemma transpileFile_results:
  "CompileResults.diagnostics (compileResults (transpileFile ts pathApi ctx cc mf)) =
     Some (map toDiagnostic
             (EmitResult.diagnostics (ts [ModuleFileMeta.filePath mf] ctx transpileTransformers)))"
  "map_of (jsFiles (compileResults (transpileFile ts pathApi ctx cc mf))) =
     fold (\<lambda>out m. m(outFilePath out \<mapsto> outText out))
       (outputs (ts [ModuleFileMeta.filePath mf] ctx transpileTransformers)) Map.empty"
  by (simp_all add: transpileFile_def Let_def fold_writeFile_effect)


text \<open>
  C5 as stated fails: for the style URL \<open>styles/main.scss\<close> of a component in
  \<open>/src/cmp\<close> the style compiler is given \<open>/src/cmp/main.scss\<close>, not the path
  under the subdirectory.
\<close>

theorem style_subdirectory_counterexample:
  "map file' (renderCalls (transpileSample subdirStyle)) = [''/src/cmp/main.scss'']
   \<and> join posixPath (ModuleFileMeta.srcDir (cmpFile subdirStyle)) ''styles/main.scss'' =
       ''/src/cmp/styles/main.scss''
   \<and> ''/src/cmp/styles/main.scss'' \<notin> set (map file' (renderCalls (transpileSample subdirStyle)))"
  by code_simp

text \<open>
  C6 as stated fails: the style compiler reports an error for the only style of the
  component, and the compile results hold no diagnostic at all.
\<close>

theorem style_error_no_diagnostic_counterexample:
  "renderCalls (transpileSample oneStyle) =
     [\<lparr>file' = ''/src/cmp/missing.scss'', outFile = ''/src/cmp/missing.scss.tmp''\<rparr>]
   \<and> render brokenSass \<lparr>file' = ''/src/cmp/missing.scss'', outFile = ''/src/cmp/missing.scss.tmp''\<rparr>
       = Inl ''Error: File to read not found or unreadable: /src/cmp/missing.scss''
   \<and> CompileResults.diagnostics (compileResults (snd (runCallbacks brokenSass
         (renderCalls (transpileSample oneStyle)) (transpileSample oneStyle)))) = Some []"
  by code_simp



















text \<open>
  C5, amended. The path passed to the style compiler for a style URL is the owning
  file's directory joined with the base name of the URL. Where the URL is its own base
  name (it has no directory part) that is the URL resolved against the owning file's
  directory.
\<close>

theorem style_path_is_basename_in_srcDir:
  "map file' (renderCalls (processIncludedStyles pathApi cc mf st)) =
     map file' (renderCalls st) @
     map (\<lambda>styleUrl. join pathApi (ModuleFileMeta.srcDir mf) (basename pathApi styleUrl))
       (moduleStyleUrls mf)
   \<and> ((\<forall>styleUrl \<in> set (moduleStyleUrls mf). basename pathApi styleUrl = styleUrl) \<longrightarrow>
        map file' (renderCalls (processIncludedStyles pathApi cc mf st)) =
          map file' (renderCalls st) @
          map (join pathApi (ModuleFileMeta.srcDir mf)) (moduleStyleUrls mf))"
proof -
  have a: "map file' (renderCalls (processIncludedStyles pathApi cc mf st)) =
     map file' (renderCalls st) @
     map (\<lambda>styleUrl. join pathApi (ModuleFileMeta.srcDir mf) (basename pathApi styleUrl))
       (moduleStyleUrls mf)"
    unfolding process_renderCalls by (simp add: scssPathOf_def Let_def)
  have "(\<forall>styleUrl \<in> set (moduleStyleUrls mf). basename pathApi styleUrl = styleUrl) \<Longrightarrow>
        map (\<lambda>styleUrl. join pathApi (ModuleFileMeta.srcDir mf) (basename pathApi styleUrl))
          (moduleStyleUrls mf) =
        map (join pathApi (ModuleFileMeta.srcDir mf)) (moduleStyleUrls mf)"
    by (rule map_cong) simp_all
  with a show ?thesis by simp
qed

lemma oneStyle_urls: "moduleStyleUrls (cmpFile oneStyle) = [''missing.scss'']"
  by (simp add: moduleStyleUrls_def hasStyles_def cmpFile_def oneStyle_def allStyleUrls_def
      modeStyleUrls_def)

theorem style_path_is_basename_in_srcDir_witness:
  "map (basename posixPath) (moduleStyleUrls (cmpFile oneStyle)) = moduleStyleUrls (cmpFile oneStyle)
   \<and> map file' (renderCalls (processIncludedStyles posixPath sampleCompilerConfig
          (cmpFile oneStyle) emptyTranspileState)) = [''/src/cmp/missing.scss'']"
proof -
  have h: "\<forall>styleUrl \<in> set (moduleStyleUrls (cmpFile oneStyle)). basename posixPath styleUrl = styleUrl"
    by (simp add: oneStyle_urls posixPath_def)
  have d: "ModuleFileMeta.srcDir (cmpFile oneStyle) = ''/src/cmp''"
    by (simp add: cmpFile_def)
  have e: "renderCalls emptyTranspileState = []"
    by (simp add: emptyTranspileState_def)
  from style_path_is_basename_in_srcDir[of posixPath sampleCompilerConfig "cmpFile oneStyle"
      emptyTranspileState] h
  show ?thesis
    unfolding oneStyle_urls d e by (simp add: posixPath_def)
qed

text \<open>
  C6, amended. Whatever the style compiler reports and in whatever order, every style
  promise resolves; an error it reports is passed to \<open>logger.error\<close> and adds
  nothing to the diagnostics of the compile results, which are exactly the converted
  TypeScript diagnostics; every emitted script path is a key of \<open>jsFiles\<close>, and the
  file emitted last is there with its text.
\<close>

theorem style_error_keeps_script:
  "promiseAll (fst (runCallbacks sassApi order (transpileFile ts pathApi ctx cc mf))) = Resolved
   \<and> CompileResults.diagnostics (compileResults (snd (runCallbacks sassApi order
         (transpileFile ts pathApi ctx cc mf)))) =
       Some (map toDiagnostic
               (EmitResult.diagnostics (ts [ModuleFileMeta.filePath mf] ctx transpileTransformers)))
   \<and> (\<forall>c \<in> set order. \<forall>err. render sassApi c = Inl err \<longrightarrow>
         (''error'', ''sass.render, getIncludedSassFiles, '' @ err)
           \<in> set (logged (snd (runCallbacks sassApi order (transpileFile ts pathApi ctx cc mf)))))
   \<and> (\<forall>out \<in> set (outputs (ts [ModuleFileMeta.filePath mf] ctx transpileTransformers)).
         outFilePath out \<in> dom (map_of (jsFiles (compileResults (snd (runCallbacks sassApi order
           (transpileFile ts pathApi ctx cc mf)))))))
   \<and> (outputs (ts [ModuleFileMeta.filePath mf] ctx transpileTransformers) \<noteq> [] \<longrightarrow>
         map_of (jsFiles (compileResults (snd (runCallbacks sassApi order
           (transpileFile ts pathApi ctx cc mf)))))
           (outFilePath (last (outputs (ts [ModuleFileMeta.filePath mf] ctx transpileTransformers))))
         = Some (outText (last (outputs (ts [ModuleFileMeta.filePath mf] ctx transpileTransformers)))))"
proof -
  let ?st = "transpileFile ts pathApi ctx cc mf"
  let ?r = "runCallbacks sassApi order ?st"
  let ?outs = "outputs (ts [ModuleFileMeta.filePath mf] ctx transpileTransformers)"
  have a: "promiseAll (fst ?r) = Resolved" by (rule runCallbacks_effect(1))
  have b: "CompileResults.diagnostics (compileResults (snd ?r)) =
       Some (map toDiagnostic
               (EmitResult.diagnostics (ts [ModuleFileMeta.filePath mf] ctx transpileTransformers)))"
    by (simp add: runCallbacks_effect(4) transpileFile_results(1))
  have c: "\<forall>c \<in> set order. \<forall>err. render sassApi c = Inl err \<longrightarrow>
         (''error'', ''sass.render, getIncludedSassFiles, '' @ err) \<in> set (logged (snd ?r))"
    using runCallbacks_logs_error by blast
  have js: "map_of (jsFiles (compileResults (snd ?r))) =
      fold (\<lambda>out m. m(outFilePath out \<mapsto> outText out)) ?outs Map.empty"
    by (simp add: runCallbacks_effect(3) transpileFile_results(2))
  have d: "\<forall>out \<in> set ?outs. outFilePath out \<in> dom (map_of (jsFiles (compileResults (snd ?r))))"
    unfolding js fold_upd_dom by simp
  have e: "?outs \<noteq> [] \<longrightarrow>
         map_of (jsFiles (compileResults (snd ?r))) (outFilePath (last ?outs))
         = Some (outText (last ?outs))"
    unfolding js using fold_upd_last by blast
  from a b c d e show ?thesis by blast
qed

theorem style_error_keeps_script_witness:
  "\<lparr>file' = ''/src/cmp/missing.scss'', outFile = ''/src/cmp/missing.scss.tmp''\<rparr>
      \<in> set (renderCalls (transpileSample oneStyle))
   \<and> render brokenSass \<lparr>file' = ''/src/cmp/missing.scss'', outFile = ''/src/cmp/missing.scss.tmp''\<rparr>
       = Inl ''Error: File to read not found or unreadable: /src/cmp/missing.scss''
   \<and> (''error'', ''sass.render, getIncludedSassFiles, Error: File to read not found or unreadable: /src/cmp/missing.scss'')
       \<in> set (logged (snd (runCallbacks brokenSass (renderCalls (transpileSample oneStyle))
                 (transpileSample oneStyle))))
   \<and> outputs (oneFileTs [''/src/cmp/cmp.ts''] [''/src/cmp/cmp.ts'' \<mapsto> cmpFile oneStyle]
         transpileTransformers) \<noteq> []
   \<and> map_of (jsFiles (compileResults (snd (runCallbacks brokenSass
         (renderCalls (transpileSample oneStyle)) (transpileSample oneStyle)))))
       ''/dist/cmp/cmp.js'' = Some ''var Cmp;''"
proof -
  have c: "\<lparr>file' = ''/src/cmp/missing.scss'', outFile = ''/src/cmp/missing.scss.tmp''\<rparr>
      \<in> set (renderCalls (transpileSample oneStyle))"
    by code_simp
  have r: "render brokenSass \<lparr>file' = ''/src/cmp/missing.scss'', outFile = ''/src/cmp/missing.scss.tmp''\<rparr>
       = Inl ''Error: File to read not found or unreadable: /src/cmp/missing.scss''"
    by (simp add: brokenSass_def)
  have f: "ModuleFileMeta.filePath (cmpFile oneStyle) = ''/src/cmp/cmp.ts''"
    by (simp add: cmpFile_def)
  have o: "outputs (oneFileTs [''/src/cmp/cmp.ts''] [''/src/cmp/cmp.ts'' \<mapsto> cmpFile oneStyle]
         transpileTransformers) =
       [\<lparr>outFilePath = ''/dist/cmp/cmp.js'', outText = ''var Cmp;'',
         sourceFiles = [''/src/cmp/cmp.ts'']\<rparr>]"
    by (simp add: oneFileTs_def)
  from style_error_keeps_script[of brokenSass "renderCalls (transpileSample oneStyle)" oneFileTs
      posixPath "[''/src/cmp/cmp.ts'' \<mapsto> cmpFile oneStyle]" sampleCompilerConfig
      "cmpFile oneStyle"] c r
  show ?thesis
    unfolding transpileSample_def[symmetric] f o by auto
qed

section \<open>The transformers of a file\<close>

lemma emit_one_file:
  "programEmit c [name] ctx ct =
     \<lparr>ctxAfter = snd (snd (emitFile c ct name ctx)),
      outputs = [fst (emitFile c ct name ctx)],
      diagnostics = fst (snd (emitFile c ct name ctx))\<rparr>"
  by (simp add: programEmit_def split: prod.splits)

text \<open>
  C8. For every file \<open>transpileFile\<close> hands the emit the same two groups of
  transformers: component-class extraction, import removal and lifecycle-method
  normalisation, in that order, in the group run before TypeScript's own transforms,
  and the \<open>jsxToVNode\<close> rewrite alone in the group run after them; no transformer is
  in both groups. So the script \<open>transpileFile\<close> records for the file is the print
  of its tree taken through component-class extraction, import removal,
  lifecycle-method normalisation, TypeScript's own transforms and \<open>jsxToVNode\<close>, in
  that order.
\<close>

theorem transpile_pass_order:
  "before transpileTransformers = [ComponentClass, RemoveImports, UpdateLifecycleMethods]
   \<and> after transpileTransformers = [JsxToVNode]
   \<and> set (before transpileTransformers) \<inter> set (after transpileTransformers) = {}
   \<and> jsFiles (compileResults (transpileFile (programEmit c) pathApi ctx compilerConfig moduleFile)) =
       [(outputFileName c (ModuleFileMeta.filePath moduleFile),
         printFile c (fst
           (runTransformer c JsxToVNode
             (apfst (ownTransforms c)
               (runTransformer c UpdateLifecycleMethods
                 (runTransformer c RemoveImports
                   (runTransformer c ComponentClass
                     (getSourceFile c (ModuleFileMeta.filePath moduleFile), ctx))))))))]"
proof -
  have a: "before transpileTransformers = [ComponentClass, RemoveImports, UpdateLifecycleMethods]
      \<and> after transpileTransformers = [JsxToVNode]
      \<and> set (before transpileTransformers) \<inter> set (after transpileTransformers) = {}"
    by (simp add: transpileTransformers_def)
  have b: "fst (emitFile c transpileTransformers (ModuleFileMeta.filePath moduleFile) ctx) =
      \<lparr>outFilePath = outputFileName c (ModuleFileMeta.filePath moduleFile),
       outText = printFile c (fst
           (runTransformer c JsxToVNode
             (apfst (ownTransforms c)
               (runTransformer c UpdateLifecycleMethods
                 (runTransformer c RemoveImports
                   (runTransformer c ComponentClass
                     (getSourceFile c (ModuleFileMeta.filePath moduleFile), ctx))))))),
       sourceFiles = [ModuleFileMeta.filePath moduleFile]\<rparr>"
    by (simp add: emitFile_def Let_def transpileTransformers_def)
  have "jsFiles (compileResults (transpileFile (programEmit c) pathApi ctx compilerConfig moduleFile)) =
      [(outFilePath (fst (emitFile c transpileTransformers (ModuleFileMeta.filePath moduleFile) ctx)),
        outText (fst (emitFile c transpileTransformers (ModuleFileMeta.filePath moduleFile) ctx)))]"
    by (simp add: transpileFile_def Let_def emit_one_file writeFile_effect(1))
  with a show ?thesis unfolding b by simp
qed

section \<open>Recognising state members\<close>

lemma marksState_iff:
  "kind n = Decorator \<and> length (getChildren n) > 1 \<and> marksState n \<longleftrightarrow> isStateDecorator n"
  by (auto simp: marksState_def isStateDecorator_def Let_def split: option.splits)

lemma visitChild_before:
  "visitChild n (False, None) = (if isStateDecorator n then (True, None) else (False, None))"
  using marksState_iff[of n] by (auto simp: visitChild_def)

lemma scan_before:
  "fold visitChild ns (False, None) =
     (case dropWhile (\<lambda>n. \<not> isStateDecorator n) ns of
        [] \<Rightarrow> (False, None)
      | d # following \<Rightarrow> fold visitChild following (True, None))"
  by (induction ns) (simp_all add: visitChild_before)

lemma scan_after_named:
  "truthyStr pn \<Longrightarrow> fold visitChild ns (True, pn) = (True, pn)"
  by (induction ns) (auto simp: visitChild_def)

lemma scan_after:
  "\<not> truthyStr pn \<Longrightarrow>
   fst (fold visitChild ns (True, pn)) \<and>
   (case nextIdentifierChild ns of
      Some i \<Rightarrow> snd (fold visitChild ns (True, pn)) = Some (getText i)
    | None \<Rightarrow> \<not> truthyStr (snd (fold visitChild ns (True, pn))))"
proof (induction ns arbitrary: pn)
  case Nil
  then show ?case by (simp add: nextIdentifierChild_def)
next
  case (Cons n ns)
  show ?case
  proof (cases "kind n = Identifier")
    case False
    then have "visitChild n (True, pn) = (True, pn)"
      by (auto simp: visitChild_def)
    then have f: "fold visitChild (n # ns) (True, pn) = fold visitChild ns (True, pn)"
      by simp
    from False have g: "nextIdentifierChild (n # ns) = nextIdentifierChild ns"
      by (simp add: nextIdentifierChild_def)
    from Cons.IH[OF Cons.prems] show ?thesis unfolding f g .
  next
    case True
    then have v: "visitChild n (True, pn) = (True, Some (getText n))"
      using Cons.prems by (auto simp: visitChild_def)
    then have f: "fold visitChild (n # ns) (True, pn) = fold visitChild ns (True, Some (getText n))"
      by simp
    show ?thesis
    proof (cases "getText n = []")
      case e: True
      then have "\<not> truthyStr (Some (getText n))" by (simp add: truthyStr_def)
      moreover from True e have g: "nextIdentifierChild (n # ns) = nextIdentifierChild ns"
        by (simp add: nextIdentifierChild_def)
      ultimately show ?thesis using Cons.IH[of "Some (getText n)"] unfolding f g by blast
    next
      case ne: False
      then have "truthyStr (Some (getText n))" by (simp add: truthyStr_def)
      from scan_after_named[OF this]
      have h: "fold visitChild ns (True, Some (getText n)) = (True, Some (getText n))" .
      from True ne have g: "nextIdentifierChild (n # ns) = Some n"
        by (simp add: nextIdentifierChild_def)
      show ?thesis unfolding f g h by simp
    qed
  qed
qed

lemma scan_flag:
  "fst (scanMember m) = (\<exists>n \<in> set (forEachChild m). isStateDecorator n)"
proof (cases "dropWhile (\<lambda>n. \<not> isStateDecorator n) (forEachChild m)")
  case Nil
  then have "\<forall>n \<in> set (forEachChild m). \<not> isStateDecorator n"
    by (simp add: dropWhile_eq_Nil_conv)
  moreover have "fst (scanMember m) = False"
    unfolding scanMember_def scan_before Nil by simp
  ultimately show ?thesis by simp
next
  case (Cons d following)
  then have "d \<in> set (forEachChild m)" by (metis list.set_intros(1) set_dropWhileD)
  moreover from Cons have "isStateDecorator d" by (metis hd_dropWhile list.sel(1) list.distinct(1))
  moreover have "fst (fold visitChild following (True, None))"
    using scan_after[of None following] by (simp add: truthyStr_def)
  then have "fst (scanMember m)"
    unfolding scanMember_def scan_before Cons by simp
  ultimately show ?thesis by auto
qed

lemma recordedName_markedName: "recordedName m = markedName m"
proof (cases "isDecorated m")
  case False
  then show ?thesis by (simp add: recordedName_def markedName_def isStateMember_def)
next
  case dec: True
  show ?thesis
  proof (cases "dropWhile (\<lambda>n. \<not> isStateDecorator n) (forEachChild m)")
    case Nil
    have s: "scanMember m = (False, None)"
      unfolding scanMember_def scan_before Nil by simp
    have am: "afterStateMarker (forEachChild m) = None"
      unfolding afterStateMarker_def Nil by simp
    from dec s am show ?thesis
      by (simp add: recordedName_def markedName_def isStateMember_def)
  next
    case (Cons d following)
    have s: "scanMember m = fold visitChild following (True, None)"
      unfolding scanMember_def scan_before Cons by simp
    have am: "afterStateMarker (forEachChild m) = Some following"
      unfolding afterStateMarker_def Cons by simp
    obtain a b where ab: "fold visitChild following (True, None) = (a, b)"
      by (cases "fold visitChild following (True, None)")
    have nt: "\<not> truthyStr None" by (simp add: truthyStr_def)
    from scan_after[OF nt, of following, unfolded ab]
    have f: "a"
      and c: "(case nextIdentifierChild following of
          Some i \<Rightarrow> b = Some (getText i)
        | None \<Rightarrow> \<not> truthyStr b)"
      by (simp_all split: option.splits)
    show ?thesis
    proof (cases "nextIdentifierChild following")
      case None
      with c f dec s am ab show ?thesis
        by (simp add: recordedName_def markedName_def isStateMember_def)
    next
      case (Some i)
      then have "getText i \<noteq> []"
        by (auto simp: nextIdentifierChild_def find_Some_iff)
      with Some c f dec s am ab show ?thesis
        by (simp add: recordedName_def markedName_def isStateMember_def truthyStr_def)
    qed
  qed
qed

lemma collectStates_names: "fst (collectStates ms) = List.map_filter recordedName ms"
proof (induction ms)
  case Nil
  show ?case by (simp add: List.map_filter_simps)
next
  case (Cons m ms)
  obtain names ms' where c: "collectStates ms = (names, ms')" by (cases "collectStates ms")
  show ?case
  proof (cases "isStateMember m")
    case True
    then obtain x where x: "snd (scanMember m) = Some x"
      by (cases "snd (scanMember m)")
         (auto simp: isStateMember_def truthyStr_def split: prod.splits)
    with True have "recordedName m = Some x" by (simp add: recordedName_def)
    with Cons c True x show ?thesis by (simp add: List.map_filter_simps)
  next
    case False
    then have "recordedName m = None" by (simp add: recordedName_def)
    with Cons c False show ?thesis by (simp add: List.map_filter_simps)
  qed
qed

lemma isStateMember_recorded: "isStateMember m \<longleftrightarrow> recordedName m \<noteq> None"
proof (cases "isStateMember m")
  case True
  then have "snd (scanMember m) \<noteq> None"
    by (auto simp: isStateMember_def truthyStr_def split: prod.splits option.splits)
  with True show ?thesis by (simp add: recordedName_def)
next
  case False
  then show ?thesis by (simp add: recordedName_def)
qed

lemma collectStates_members:
  "snd (collectStates ms) = map (\<lambda>m. if isStateMember m then m\<lparr>decorators := None\<rparr> else m) ms"
  by (induction ms) (auto split: prod.splits)

section \<open>The list of state names\<close>

lemma sortStates_sorted: "sorted (map toLowerCase (sortStates xs))"
  by (simp add: sortStates_def)

lemma sortStates_mset: "mset (sortStates xs) = mset xs"
  by (simp add: sortStates_def)

lemma sortStates_distinct: "distinct xs \<Longrightarrow> distinct (sortStates xs)"
  by (simp add: sortStates_def)

lemma sortStates_keys: "map toLowerCase (sortStates xs) = sort (map toLowerCase xs)"
proof -
  have "mset (map toLowerCase (sortStates xs)) = mset (map toLowerCase xs)"
    by (simp add: sortStates_mset)
  from properties_for_sort[OF this sortStates_sorted] show ?thesis by simp
qed

lemma sortStates_perm_keys:
  assumes "mset xs = mset ys"
  shows "map toLowerCase (sortStates xs) = map toLowerCase (sortStates ys)"
proof -
  from assms have "mset (map toLowerCase xs) = mset (map toLowerCase ys)" by simp
  then have "sort (map toLowerCase xs) = sort (map toLowerCase ys)"
    by (metis properties_for_sort sorted_sort mset_sort)
  then show ?thesis by (simp add: sortStates_keys)
qed

lemma sortStates_perm:
  assumes "mset xs = mset ys" and "distinct (map toLowerCase xs)"
  shows "sortStates xs = sortStates ys"
proof -
  from assms(2) have inj: "inj_on toLowerCase (set xs)" by (simp add: distinct_map)
  have sx: "set (sortStates xs) = set xs" by (simp add: sortStates_def)
  have sy: "set (sortStates ys) = set xs"
    using assms(1) by (simp add: sortStates_def) (metis mset_eq_setD)
  from inj sx sy have "inj_on toLowerCase (set (sortStates xs) \<union> set (sortStates ys))" by simp
  from inj_on_map_eq_map[OF this] sortStates_perm_keys[OF assms(1)] show ?thesis by simp
qed

lemma not_state_undecorated: "\<not> isStateMember (m\<lparr>decorators := None\<rparr>)"
  by (simp add: isStateMember_def isDecorated_def)

lemma collectStates_none:
  "\<forall>m \<in> set ms. \<not> isStateMember m \<Longrightarrow> collectStates ms = ([], ms)"
  by (induction ms) simp_all

lemma collectStates_rerun: "collectStates (snd (collectStates ms)) = ([], snd (collectStates ms))"
proof -
  have "\<forall>m \<in> set (snd (collectStates ms)). \<not> isStateMember m"
    unfolding collectStates_members by (auto simp: not_state_undecorated)
  then show ?thesis by (rule collectStates_none)
qed

lemma pushedNames_perm:
  assumes "mset (members (other :: ClassDeclaration)) = mset (members (classNode :: ClassDeclaration))"
  shows "mset (pushedNames other) = mset (pushedNames classNode)"
proof -
  have "mset (List.map_filter f xs) = image_mset (the \<circ> f) (filter_mset (\<lambda>x. f x \<noteq> None) (mset xs))"
    for f :: "ClassElement \<Rightarrow> string option" and xs
    by (simp add: List.map_filter_def)
  with assms show ?thesis by (simp add: pushedNames_def collectStates_names)
qed

lemma getStateDecoratorMeta_run:
  assumes "cmpMeta fileMeta = Some cm"
  shows "getStateDecoratorMeta fileMeta classNode =
     Inr (fileMeta\<lparr>cmpMeta := Some (cm\<lparr>statesMeta := Some (sortStates (pushedNames classNode))\<rparr>)\<rparr>,
          classNode\<lparr>members := snd (collectStates (members classNode))\<rparr>)"
  using assms
  by (simp add: getStateDecoratorMeta_def pushedNames_def split: prod.splits)

lemma sortStates_Nil: "sortStates [] = []"
  by (simp add: sortStates_def)

text \<open>
  C2, amended. For a file with component metadata the state names are the names
  pushed for the recognised members, one per member, sorted by lower-cased form: the
  lower-cased sequence is ascending, the list is a rearrangement of the pushed names
  (so it has duplicates exactly when two members push the same name), and for a class
  with the same members in another order the lower-cased sequence is the same, the list
  itself being the same when no two pushed names agree up to case. A second run on the
  result finds no marker left: it yields the empty list and leaves the class as the
  first run left it.
\<close>

theorem states_sorted_one_per_member:
  assumes "cmpMeta fileMeta = Some cm"
  shows "statesOf (getStateDecoratorMeta fileMeta classNode) = Some (sortStates (pushedNames classNode))
     \<and> pushedNames classNode = List.map_filter recordedName (members classNode)
     \<and> sorted (map toLowerCase (sortStates (pushedNames classNode)))
     \<and> mset (sortStates (pushedNames classNode)) = mset (pushedNames classNode)
     \<and> (distinct (pushedNames classNode) \<longrightarrow> distinct (sortStates (pushedNames classNode)))
     \<and> (\<forall>other :: ClassDeclaration. mset (members other) = mset (members classNode) \<longrightarrow>
           map toLowerCase (sortStates (pushedNames other)) =
             map toLowerCase (sortStates (pushedNames classNode))
           \<and> (distinct (map toLowerCase (pushedNames classNode)) \<longrightarrow>
                statesOf (getStateDecoratorMeta fileMeta other) =
                  statesOf (getStateDecoratorMeta fileMeta classNode)))
     \<and> statesOf (rerun (getStateDecoratorMeta fileMeta classNode)) = Some []
     \<and> map_sum id snd (rerun (getStateDecoratorMeta fileMeta classNode)) =
         map_sum id snd (getStateDecoratorMeta fileMeta classNode)"
proof -
  note run = getStateDecoratorMeta_run[OF assms]
  have a: "statesOf (getStateDecoratorMeta fileMeta classNode) =
      Some (sortStates (pushedNames classNode))"
    unfolding run by (simp add: statesOf_def)
  have b: "pushedNames classNode = List.map_filter recordedName (members classNode)"
    by (simp add: pushedNames_def collectStates_names)
  have c: "\<forall>other :: ClassDeclaration. mset (members other) = mset (members classNode) \<longrightarrow>
           map toLowerCase (sortStates (pushedNames other)) =
             map toLowerCase (sortStates (pushedNames classNode))
           \<and> (distinct (map toLowerCase (pushedNames classNode)) \<longrightarrow>
                statesOf (getStateDecoratorMeta fileMeta other) =
                  statesOf (getStateDecoratorMeta fileMeta classNode))"
  proof (intro allI impI conjI)
    fix other :: ClassDeclaration
    assume p: "mset (members other) = mset (members classNode)"
    from pushedNames_perm[OF p]
    have q: "mset (pushedNames classNode) = mset (pushedNames other)" by simp
    from sortStates_perm_keys[OF q]
    show "map toLowerCase (sortStates (pushedNames other)) =
             map toLowerCase (sortStates (pushedNames classNode))" by simp
    assume "distinct (map toLowerCase (pushedNames classNode))"
    from sortStates_perm[OF q this]
    show "statesOf (getStateDecoratorMeta fileMeta other) =
                  statesOf (getStateDecoratorMeta fileMeta classNode)"
      unfolding getStateDecoratorMeta_run[OF assms] by (simp add: statesOf_def)
  qed
  let ?fm = "fileMeta\<lparr>cmpMeta := Some (cm\<lparr>statesMeta := Some (sortStates (pushedNames classNode))\<rparr>)\<rparr>"
  let ?cn = "classNode\<lparr>members := snd (collectStates (members classNode))\<rparr>"
  have m: "cmpMeta ?fm = Some (cm\<lparr>statesMeta := Some (sortStates (pushedNames classNode))\<rparr>)"
    by simp
  have pn: "pushedNames ?cn = []" and ms: "snd (collectStates (members ?cn)) = members ?cn"
    by (simp_all add: pushedNames_def collectStates_rerun)
  have r: "rerun (getStateDecoratorMeta fileMeta classNode) =
      Inr (?fm\<lparr>cmpMeta := Some (cm\<lparr>statesMeta := Some []\<rparr>)\<rparr>, ?cn)"
    unfolding run rerun_def using getStateDecoratorMeta_run[OF m, of ?cn]
    by (simp add: pn collectStates_rerun sortStates_Nil)
  have d: "statesOf (rerun (getStateDecoratorMeta fileMeta classNode)) = Some []"
    unfolding r by (simp add: statesOf_def)
  have e: "map_sum id snd (rerun (getStateDecoratorMeta fileMeta classNode)) =
         map_sum id snd (getStateDecoratorMeta fileMeta classNode)"
  proof -
    have "map_sum id snd (rerun (getStateDecoratorMeta fileMeta classNode)) = Inr ?cn"
      by (simp only: r) simp
    moreover have "map_sum id snd (getStateDecoratorMeta fileMeta classNode) = Inr ?cn"
      by (simp only: run) simp
    ultimately show ?thesis by simp
  qed
  from a b c d e sortStates_sorted sortStates_mset sortStates_distinct show ?thesis by blast
qed

text \<open>
  C2 as stated fails in three places: an instance and a static property that are both
  \<open>a\<close> give \<open>a\<close> twice; \<open>a\<close> and \<open>A\<close> come out in declaration order,
  so the result depends on it; and running the extraction on its own output turns
  \<open>[a]\<close> into the empty list.
\<close>

theorem states_duplicate_order_rerun_counterexample:
  "statesOf (getStateDecoratorMeta sampleFileMeta (classOf [stateProp ''a'', staticStateProp ''a'']))
     = Some [''a'', ''a'']
   \<and> statesOf (getStateDecoratorMeta sampleFileMeta (classOf [stateProp ''a'', stateProp ''A'']))
     = Some [''a'', ''A'']
   \<and> statesOf (getStateDecoratorMeta sampleFileMeta (classOf [stateProp ''A'', stateProp ''a'']))
     = Some [''A'', ''a'']
   \<and> statesOf (getStateDecoratorMeta sampleFileMeta (classOf [stateProp ''a''])) = Some [''a'']
   \<and> statesOf (rerun (getStateDecoratorMeta sampleFileMeta (classOf [stateProp ''a''])))
     = Some []"
  by code_simp

theorem states_sorted_one_per_member_witness:
  "cmpMeta sampleFileMeta = Some \<lparr>styleMeta = Some [], statesMeta = None\<rparr>
   \<and> mset (members (classOf [stateProp ''B'', stateProp ''a'']))
       = mset (members (classOf [stateProp ''a'', stateProp ''B'']))
   \<and> pushedNames (classOf [stateProp ''a'', stateProp ''B'']) = [''a'', ''B'']
   \<and> distinct (map toLowerCase (pushedNames (classOf [stateProp ''a'', stateProp ''B''])))
   \<and> statesOf (getStateDecoratorMeta sampleFileMeta (classOf [stateProp ''a'', stateProp ''B'']))
       = Some [''a'', ''B'']
   \<and> statesOf (getStateDecoratorMeta sampleFileMeta (classOf [stateProp ''B'', stateProp ''a'']))
       = Some [''a'', ''B'']
   \<and> statesOf (rerun (getStateDecoratorMeta sampleFileMeta
         (classOf [stateProp ''a'', stateProp ''B'']))) = Some []"
proof -
  have h: "cmpMeta sampleFileMeta = Some \<lparr>styleMeta = Some [], statesMeta = None\<rparr>"
    by (simp add: sampleFileMeta_def cmpFile_def)
  have p: "mset (members (classOf [stateProp ''B'', stateProp ''a'']))
       = mset (members (classOf [stateProp ''a'', stateProp ''B'']))"
    by (simp add: classOf_def)
  have n: "pushedNames (classOf [stateProp ''a'', stateProp ''B'']) = [''a'', ''B'']"
    by code_simp
  have k: "distinct (map toLowerCase [''a'', ''B''])" by code_simp
  have s: "sortStates [''a'', ''B''] = [''a'', ''B'']" by code_simp
  note t = states_sorted_one_per_member[OF h, of "classOf [stateProp ''a'', stateProp ''B'']"]
  from t have a: "statesOf (getStateDecoratorMeta sampleFileMeta
      (classOf [stateProp ''a'', stateProp ''B''])) = Some [''a'', ''B'']"
    unfolding n s by blast
  from t p k have "statesOf (getStateDecoratorMeta sampleFileMeta
      (classOf [stateProp ''B'', stateProp ''a''])) =
      statesOf (getStateDecoratorMeta sampleFileMeta (classOf [stateProp ''a'', stateProp ''B'']))"
    unfolding n by blast
  with a have b: "statesOf (getStateDecoratorMeta sampleFileMeta
      (classOf [stateProp ''B'', stateProp ''a''])) = Some [''a'', ''B'']" by simp
  from t have c: "statesOf (rerun (getStateDecoratorMeta sampleFileMeta
         (classOf [stateProp ''a'', stateProp ''B'']))) = Some []" by blast
  from h p n k a b c show ?thesis unfolding n by blast
qed

section \<open>Which members are recorded\<close>

text \<open>
  C7 as stated fails: \<open>@State 'open'\<close> carries the marker and is not recorded, and
  for \<open>@State() @Watch() y\<close> the next identifier token after the marker is
  \<open>Watch\<close> while the name recorded is \<open>y\<close>.
\<close>

theorem state_recognition_counterexample:
  "hasStateMarker (literalStateProp ''open'')
   \<and> \<not> isStateMember (literalStateProp ''open'')
   \<and> statesOf (getStateDecoratorMeta sampleFileMeta (classOf [literalStateProp ''open'']))
       = Some []
   \<and> specifiedName (watchedStateProp ''y'') = Some ''Watch''
   \<and> statesOf (getStateDecoratorMeta sampleFileMeta (classOf [watchedStateProp ''y'']))
       = Some [''y'']"
  by code_simp

text \<open>
  C7, amended. Scanning a member sets \<open>isState\<close> exactly when one of the children
  visited is a decorator that is a state marker (the first token of its expression
  reads \<open>State\<close>, or the expression has no first token and reads \<open>State\<close> as a
  whole); both \<open>@State()\<close> and \<open>@State\<close> are. The member is recorded exactly when
  it is decorated and, after the first such marker, one of its own children is an
  identifier with a text; the name recorded is the text of the first such child. For a
  file with component metadata \<open>getStateDecoratorMeta\<close> yields these names, sorted,
  and removes the decorators of exactly the members recorded.
\<close>

theorem state_member_recognition:
  assumes "cmpMeta fileMeta = Some cm"
  shows "fst (scanMember m) = (\<exists>n \<in> set (forEachChild m). isStateDecorator n)
   \<and> isStateMember m = (markedName m \<noteq> None)
   \<and> recordedName m = markedName m
   \<and> statesOf (getStateDecoratorMeta fileMeta classNode) =
       Some (sortStates (List.map_filter markedName (members classNode)))
   \<and> map_sum id (\<lambda>r. members (snd r)) (getStateDecoratorMeta fileMeta classNode) =
       Inr (map (\<lambda>m. if markedName m \<noteq> None then m\<lparr>decorators := None\<rparr> else m)
              (members classNode))
   \<and> isStateDecorator (callDecorator ''State'')
   \<and> isStateDecorator (bareDecorator ''State'')"
proof -
  have a: "isStateDecorator (callDecorator ''State'')"
    by (simp add: isStateDecorator_def callDecorator_def ident_def isTokenKind_def)
  have b: "isStateDecorator (bareDecorator ''State'')"
    by (simp add: isStateDecorator_def bareDecorator_def ident_def isTokenKind_def)
  have eq: "recordedName = markedName" by (rule ext) (rule recordedName_markedName)
  have d: "isStateMember x = (markedName x \<noteq> None)" for x
    using isStateMember_recorded[of x] by (simp add: recordedName_markedName)
  note run = getStateDecoratorMeta_run[OF assms, of classNode]
  have e: "statesOf (getStateDecoratorMeta fileMeta classNode) =
       Some (sortStates (List.map_filter markedName (members classNode)))"
    unfolding run by (simp add: statesOf_def pushedNames_def collectStates_names eq)
  have f: "map_sum id (\<lambda>r. members (snd r)) (getStateDecoratorMeta fileMeta classNode) =
       Inr (map (\<lambda>m. if markedName m \<noteq> None then m\<lparr>decorators := None\<rparr> else m)
              (members classNode))"
    unfolding run by (simp add: collectStates_members d)
  from a b d[of m] e f scan_flag[of m] recordedName_markedName[of m] show ?thesis by blast
qed

theorem state_member_recognition_witness:
  "cmpMeta sampleFileMeta = Some \<lparr>styleMeta = Some [], statesMeta = None\<rparr>
   \<and> callDecorator ''State'' \<in> set (forEachChild (stateProp ''count''))
   \<and> isStateDecorator (callDecorator ''State'')
   \<and> fst (scanMember (stateProp ''count''))
   \<and> recordedName (stateProp ''count'') = Some ''count''
   \<and> isStateMember (stateProp ''count'')
   \<and> statesOf (getStateDecoratorMeta sampleFileMeta
         (classOf [stateProp ''count'', staticStateProp ''open''])) = Some [''count'', ''open'']"
proof -
  have h: "cmpMeta sampleFileMeta = Some \<lparr>styleMeta = Some [], statesMeta = None\<rparr>"
    by (simp add: sampleFileMeta_def cmpFile_def)
  have i: "callDecorator ''State'' \<in> set (forEachChild (stateProp ''count''))"
    by (simp add: forEachChild_def stateProp_def)
  have m1: "markedName (stateProp ''count'') = Some ''count''"
    by code_simp
  have m3: "sortStates (List.map_filter markedName
      (members (classOf [stateProp ''count'', staticStateProp ''open'']))) = [''count'', ''open'']"
    by code_simp
  note t = state_member_recognition[OF h, of "stateProp ''count''"
      "classOf [stateProp ''count'', staticStateProp ''open'']"]
  from t i have a: "fst (scanMember (stateProp ''count''))" by blast
  from t have b: "isStateDecorator (callDecorator ''State'')" by blast
  from t have "recordedName (stateProp ''count'') = markedName (stateProp ''count'')" by blast
  with m1 have c: "recordedName (stateProp ''count'') = Some ''count''" by (simp only:)
  from t have "isStateMember (stateProp ''count'') = (markedName (stateProp ''count'') \<noteq> None)"
    by blast
  with m1 have d: "isStateMember (stateProp ''count'')" by simp
  from t have "statesOf (getStateDecoratorMeta sampleFileMeta
         (classOf [stateProp ''count'', staticStateProp ''open''])) =
       Some (sortStates (List.map_filter markedName
         (members (classOf [stateProp ''count'', staticStateProp ''open'']))))" by blast
  with m3 have e: "statesOf (getStateDecoratorMeta sampleFileMeta
         (classOf [stateProp ''count'', staticStateProp ''open''])) = Some [''count'', ''open'']"
    by (simp only:)
  from h i a b c d e show ?thesis by blast
qed

end
